theory Spec2Isabelle
  imports Main
begin

section \<open>Data model\<close>

text \<open>
  The bot keeps two JSON files under one \<open>data\<close> directory and one in-memory set.
  Identifiers (guild, channel, message and user ids) are strings, as in the source.
\<close>

record StarboardConfig =
  guildId :: string
  channelIds :: "string list"
  emoji :: string
  onlyAttachments :: bool
  autoThread :: bool
  hallOfFameChannelId :: "string option"
  threshold :: "int option"

record Warning =
  caseId :: string
  userId :: string
  staffId :: string
  reason :: string
  timestamp :: string

text \<open>
  The text of a file is kept as what the runtime's JSON reader makes of it. The source
  looks at a file's text in two ways only: \<open>rawData.trim()\<close> (is it blank?) and
  \<open>JSON.parse\<close>. \<open>Blank\<close> is a text that is empty or white space, \<open>Garbage\<close> a
  non-blank text that is not JSON, \<open>JsonOther\<close> a JSON text whose value is not an
  array (\<open>{}\<close>, \<open>null\<close>, \<open>5\<close>), and \<open>JsonArray xs\<close> the text of an array of records.
  \<open>JSON.stringify\<close> of an array \<open>xs\<close> is \<open>JsonArray xs\<close>: the records hold strings,
  booleans, integers and absent optional fields, which the runtime's JSON writer and
  reader carry over unchanged. For the warnings file the text itself, as the writer
  makes it and the reader takes it apart, is given further down (\<open>stringify_text\<close>,
  \<open>parse_text\<close>).
\<close>

datatype 'a file_text = Blank | Garbage | JsonOther | JsonArray "'a list"

datatype 'a json_value = JOther | JArr "'a list"

datatype error = SyntaxError | TypeError | ENOENT | DiscordAPIError | ValidationError

fun JSON_parse :: "'a file_text \<Rightarrow> error + 'a json_value" where
  "JSON_parse Blank = Inl SyntaxError"
| "JSON_parse Garbage = Inl SyntaxError"
| "JSON_parse JsonOther = Inr JOther"
| "JSON_parse (JsonArray xs) = Inr (JArr xs)"

definition JSON_stringify :: "'a list \<Rightarrow> 'a file_text" where
  "JSON_stringify xs = JsonArray xs"

text \<open>
  The \<open>data\<close> directory: \<open>None\<close> when the directory does not exist, otherwise its two
  files, each \<open>None\<close> when missing.
\<close>

record data_dir =
  starboard_json :: "StarboardConfig file_text option"
  warnings_json :: "Warning file_text option"

type_synonym filesystem = "data_dir option"

text \<open>
  The text of a file, \<open>None\<close> when \<open>fs.existsSync\<close> says the file is not there (a file
  in a missing directory is not there).
\<close>

definition starboard_file :: "filesystem \<Rightarrow> StarboardConfig file_text option" where
  "starboard_file fsys = (case fsys of None \<Rightarrow> None | Some d \<Rightarrow> starboard_json d)"

definition warnings_file :: "filesystem \<Rightarrow> Warning file_text option" where
  "warnings_file fsys = (case fsys of None \<Rightarrow> None | Some d \<Rightarrow> warnings_json d)"

datatype ChannelType =
    GuildText | GuildVoice | GuildCategory | GuildAnnouncement
  | AnnouncementThread | PublicThread | PrivateThread | GuildStageVoice | GuildForum

text \<open>What a handler returns to its caller: it ran to its end, or an exception left it.\<close>

datatype outcome = Returned | Threw error

text \<open>
  \<open>fs.writeFileSync(file, JSON.stringify(xs, null, 2))\<close> replaces the whole file, and
  throws when the directory is missing. \<open>fs.mkdirSync\<close> makes the empty directory.
\<close>

definition writeFileSync_starboard :: "StarboardConfig list \<Rightarrow> filesystem \<Rightarrow> filesystem \<times> outcome" where
  "writeFileSync_starboard configs fsys =
     (case fsys of
        None \<Rightarrow> (fsys, Threw ENOENT)
      | Some d \<Rightarrow> (Some (d\<lparr>starboard_json := Some (JSON_stringify configs)\<rparr>), Returned))"

definition writeFileSync_warnings :: "Warning list \<Rightarrow> filesystem \<Rightarrow> filesystem \<times> outcome" where
  "writeFileSync_warnings warnings fsys =
     (case fsys of
        None \<Rightarrow> (fsys, Threw ENOENT)
      | Some d \<Rightarrow> (Some (d\<lparr>warnings_json := Some (JSON_stringify warnings)\<rparr>), Returned))"

definition mkdirSync_dataDir :: "filesystem \<Rightarrow> filesystem" where
  "mkdirSync_dataDir fsys = Some \<lparr>starboard_json = None, warnings_json = None\<rparr>"

text \<open>
  The messages the commands reply with. \<open>PermissionDenied\<close> is the ephemeral reply
  "You don't have permission to use this command.", \<open>InvalidTarget\<close> the ephemeral
  "Invalid target.", \<open>NoValidTextChannels\<close> is "No valid text channels found in your
  input.", \<open>CommandFailed\<close> the dispatcher's ephemeral "There was an error running that
  command.". \<open>StarboardConfigured\<close> carries what the confirmation lists: the channels,
  the emoji, the two flags, the Hall-of-Fame channel and the threshold when they are
  shown. \<open>UserWarned\<close> carries the fields of the public embed: user, staff, reason, case id.
  \<open>Pong\<close> carries the latency in milliseconds.
\<close>

datatype reply_msg =
    PermissionDenied
  | InvalidTarget
  | NoValidTextChannels
  | StarboardConfigured "string list" string bool bool "string option" "int option"
  | UserWarned string string string string
  | Pong int
  | CommandFailed

record embed =
  em_authorName :: string
  em_description :: "string option"
  em_footerEmoji :: string
  em_footerCount :: int
  em_footerUrl :: string
  em_image :: "string option"

text \<open>
  Every call the code makes to the outside is recorded, in order, whether or not the
  platform then accepts it: \<open>React m e\<close> is \<open>message.react(e)\<close> on message \<open>m\<close>;
  \<open>ThreadCreate c m e\<close> is \<open>threads.create\<close> in channel \<open>c\<close> started at message \<open>m\<close>,
  named after emoji \<open>e\<close>; \<open>HofSend c m em\<close> is \<open>textChan.send\<close> to channel \<open>c\<close> of the
  embed \<open>em\<close> built for message \<open>m\<close>; \<open>DirectMessage u r k\<close> is \<open>target.send\<close> to user
  \<open>u\<close> with reason \<open>r\<close> and case id \<open>k\<close>; \<open>Reply\<close>, \<open>FollowUp\<close>, \<open>DeferReply\<close> and
  \<open>EditReply\<close> answer an interaction; \<open>ConsoleError\<close> and \<open>ConsoleWarn\<close> are log lines.
\<close>

datatype effect =
    React string string
  | ThreadCreate string string string
  | HofSend string string embed
  | DirectMessage string string string
  | Reply reply_msg
  | FollowUp reply_msg
  | DeferReply
  | EditReply reply_msg
  | ConsoleError string
  | ConsoleWarn string

section \<open>The /starboard command\<close>

subsection \<open>Extracting the ids\<close>

definition isDigit :: "char \<Rightarrow> bool" where
  "isDigit c = (c \<in> set ''0123456789'')"

text \<open>
  \<open>channelsInput.matchAll(/(\d{17,19})/g)\<close>: at each position the greedy quantifier takes
  as many digits as there are, up to 19; with 17 or more the match is kept and the scan
  goes on after it, otherwise the scan moves one character on.
\<close>

function matchAll :: "string \<Rightarrow> string list" where
  "matchAll [] = []"
| "matchAll (c # cs) =
     (if 17 \<le> length (take 19 (takeWhile isDigit (c # cs)))
      then take 19 (takeWhile isDigit (c # cs))
             # matchAll (drop (length (take 19 (takeWhile isDigit (c # cs)))) (c # cs))
      else matchAll cs)"
  by pat_completeness auto
termination
  by (relation "measure length") auto

text \<open>What the pattern takes at the start of \<open>s\<close>: the digits there, 19 at most.\<close>

definition digits_at :: "string \<Rightarrow> string" where
  "digits_at s = take 19 (takeWhile isDigit s)"

text \<open>
  \<open>new Set(iterable)\<close> adds the elements in order; adding one that is already there
  changes nothing, and \<open>Array.from\<close> reads the set in insertion order.
\<close>

definition Set_add :: "'a list \<Rightarrow> 'a \<Rightarrow> 'a list" where
  "Set_add s x = (if x \<in> set s then s else s @ [x])"

definition new_Set :: "'a list \<Rightarrow> 'a list" where
  "new_Set xs = foldl Set_add [] xs"

definition extract_ids :: "string \<Rightarrow> string list" where
  "extract_ids channelsInput = new_Set (matchAll channelsInput)"

text \<open>
  The validation loop: \<open>interaction.guild?.channels.cache.get(id)\<close>, kept when its type
  is \<open>GuildText\<close>. The cache is \<open>None\<close> when the interaction has no guild.
\<close>

type_synonym channel_cache = "string \<rightharpoonup> ChannelType"

definition cache_get :: "channel_cache option \<Rightarrow> string \<Rightarrow> ChannelType option" where
  "cache_get guild i = (case guild of None \<Rightarrow> None | Some cache \<Rightarrow> cache i)"

fun validate_channels :: "channel_cache option \<Rightarrow> string list \<Rightarrow> string list \<Rightarrow> string list" where
  "validate_channels guild [] validChannelIds = validChannelIds"
| "validate_channels guild (i # ids) validChannelIds =
     (if cache_get guild i = Some GuildText
      then validate_channels guild ids (validChannelIds @ [i])
      else validate_channels guild ids validChannelIds)"

subsection \<open>Saving the config\<close>

text \<open>
  \<open>saveConfig\<close> reads the file when it exists, with \<open>JSON.parse\<close> outside any
  \<open>try\<close>; drops the guild's records; appends the new one; writes the file. It does not
  create the directory.
\<close>

record config_data =
  cd_channelIds :: "string list"
  cd_emoji :: string
  cd_onlyAttachments :: bool
  cd_autoThread :: bool
  cd_hallOfFameChannelId :: "string option"
  cd_threshold :: "int option"

text \<open>The object literal \<open>{ guildId, ...data }\<close>.\<close>

definition with_guildId :: "string \<Rightarrow> config_data \<Rightarrow> StarboardConfig" where
  "with_guildId g data =
     \<lparr> guildId = g,
       channelIds = cd_channelIds data,
       emoji = cd_emoji data,
       onlyAttachments = cd_onlyAttachments data,
       autoThread = cd_autoThread data,
       hallOfFameChannelId = cd_hallOfFameChannelId data,
       threshold = cd_threshold data \<rparr>"

definition saveConfig :: "string \<Rightarrow> config_data \<Rightarrow> filesystem \<Rightarrow> filesystem \<times> outcome" where
  "saveConfig g data fsys =
     (case (case starboard_file fsys of
              None \<Rightarrow> Inr (JArr [])
            | Some txt \<Rightarrow> JSON_parse txt) of
        Inl e \<Rightarrow> (fsys, Threw e)
      | Inr JOther \<Rightarrow> (fsys, Threw TypeError)
      | Inr (JArr configs) \<Rightarrow>
          writeFileSync_starboard
            (filter (\<lambda>c. guildId c \<noteq> g) configs @ [with_guildId g data]) fsys)"

record starboard_interaction =
  si_guildId :: string
  si_guild :: "channel_cache option"
  si_channels :: string
  si_emoji :: string
  si_only_attachments :: "bool option"
  si_auto_thread :: "bool option"
  si_hall_of_fame :: "string option"
  si_threshold :: "int option"

definition configData :: "starboard_interaction \<Rightarrow> string list \<Rightarrow> config_data" where
  "configData i validChannelIds =
     \<lparr> cd_channelIds = validChannelIds,
       cd_emoji = si_emoji i,
       cd_onlyAttachments = (case si_only_attachments i of None \<Rightarrow> False | Some b \<Rightarrow> b),
       cd_autoThread = (case si_auto_thread i of None \<Rightarrow> False | Some b \<Rightarrow> b),
       cd_hallOfFameChannelId = si_hall_of_fame i,
       cd_threshold = si_threshold i \<rparr>"

definition validChannelIds_of :: "starboard_interaction \<Rightarrow> string list" where
  "validChannelIds_of i = validate_channels (si_guild i) (extract_ids (si_channels i)) []"

text \<open>
  The confirmation shows the threshold only when \<open>if (threshold)\<close> holds: a number
  that is present and not zero.
\<close>

definition starboard_execute ::
  "starboard_interaction \<Rightarrow> filesystem \<Rightarrow> effect list \<times> filesystem \<times> outcome" where
  "starboard_execute i fsys =
     (let validChannelIds = validChannelIds_of i in
      if length validChannelIds = 0 then ([Reply NoValidTextChannels], fsys, Returned)
      else
        (let data = configData i validChannelIds in
         case saveConfig (si_guildId i) data fsys of
           (fsys', Threw e) \<Rightarrow> ([], fsys', Threw e)
         | (fsys', Returned) \<Rightarrow>
             ([Reply (StarboardConfigured validChannelIds (si_emoji i) (cd_onlyAttachments data)
                 (cd_autoThread data) (si_hall_of_fame i)
                 (case si_threshold i of None \<Rightarrow> None
                  | Some t \<Rightarrow> if t = 0 then None else Some t))], fsys', Returned)))"

section \<open>The /warn command\<close>

record GuildMember =
  gm_id :: string
  gm_roles :: "string list"
  gm_bot :: bool

text \<open>
  \<open>interaction.member\<close>: \<open>null\<close> when the command is used outside a guild, the raw
  member of the API (its roles a plain array of ids) when the guild is not in the cache,
  a \<open>GuildMember\<close> otherwise. The source casts it to \<open>GuildMember\<close> without a check.
\<close>

datatype interaction_member =
    NullMember
  | ApiMember "string list"
  | CachedMember GuildMember

text \<open>
  What one invocation brings: the caller, the target member (\<open>None\<close> when the option
  does not resolve to a member; with the caller's guild in the cache a resolved target
  is a \<open>GuildMember\<close>), the reason, the case id that \<open>Math.random\<close> yields, the ISO time
  of \<open>new Date()\<close>, and whether the platform delivers the direct message.
\<close>

record warn_interaction =
  wi_staff :: interaction_member
  wi_target :: "GuildMember option"
  wi_reason :: string
  wi_caseId :: string
  wi_now :: string
  wi_dmOk :: bool

text \<open>
  Reading the warnings file: an empty array when the file is missing or its text is
  blank; the parsed value otherwise, and an empty array with a log line when
  \<open>JSON.parse\<close> throws.
\<close>

definition read_warnings :: "filesystem \<Rightarrow> effect list \<times> Warning json_value" where
  "read_warnings fsys =
     (case warnings_file fsys of
        None \<Rightarrow> ([], JArr [])
      | Some Blank \<Rightarrow> ([], JArr [])
      | Some txt \<Rightarrow>
          (case JSON_parse txt of
             Inl e \<Rightarrow> ([ConsoleError ''Error parsing JSON from warnings file:''], JArr [])
           | Inr v \<Rightarrow> ([], v)))"

definition new_warning :: "warn_interaction \<Rightarrow> GuildMember \<Rightarrow> GuildMember \<Rightarrow> Warning" where
  "new_warning i staff target =
     \<lparr> caseId = wi_caseId i,
       userId = gm_id target,
       staffId = gm_id staff,
       reason = wi_reason i,
       timestamp = wi_now i \<rparr>"

definition has_Staff_role :: "GuildMember \<Rightarrow> bool" where
  "has_Staff_role staff = list_ex (\<lambda>role. role = ''Staff'') (gm_roles staff)"

text \<open>
  The embed builder checks what it is given and throws when a check fails: a
  description holds 1 to 4096 characters, the value of a field 1 to 1024. A member
  written into a template string is its mention, \<open><@id>\<close>. The description of the
  direct message is \<open>**Reason:** \<close>, the reason, a line break, \<open>**Case ID:** \<close> and the
  case id; the fields of the public embed are the two mentions, the reason and the
  case id.
\<close>

definition mention :: "GuildMember \<Rightarrow> string" where
  "mention m = ''<@'' @ gm_id m @ ''>''"

definition field_value_ok :: "string \<Rightarrow> bool" where
  "field_value_ok v = (1 \<le> length v \<and> length v \<le> 1024)"

definition dm_description :: "warn_interaction \<Rightarrow> string" where
  "dm_description i = ''**Reason:** '' @ wi_reason i @ [CHR 0x0A] @ ''**Case ID:** '' @ wi_caseId i"

definition dm_embed_ok :: "warn_interaction \<Rightarrow> bool" where
  "dm_embed_ok i = (1 \<le> length (dm_description i) \<and> length (dm_description i) \<le> 4096)"

definition reply_embed_ok :: "warn_interaction \<Rightarrow> GuildMember \<Rightarrow> GuildMember \<Rightarrow> bool" where
  "reply_embed_ok i staff target =
     (field_value_ok (mention target) \<and> field_value_ok (mention staff)
      \<and> field_value_ok (wi_reason i) \<and> field_value_ok (wi_caseId i))"

text \<open>
  The direct message with its \<open>try\<close>: the embed is built inside it, so a description
  the builder refuses is logged like a message the platform refuses, and then no
  message is sent.
\<close>

definition send_dm :: "warn_interaction \<Rightarrow> GuildMember \<Rightarrow> effect list" where
  "send_dm i target =
     (if \<not> dm_embed_ok i then [ConsoleWarn ''Could not DM'']
      else DirectMessage (gm_id target) (wi_reason i) (wi_caseId i)
             # (if wi_dmOk i then [] else [ConsoleWarn ''Could not DM'']))"

text \<open>
  \<open>execute\<close> of \<open>/warn\<close>. The role check reads \<open>staff.roles.cache\<close>, which throws on a
  caller that is not a \<open>GuildMember\<close>. The file is read, extended and written before
  the first \<open>await\<close>. The public embed is built outside any \<open>try\<close>: when the builder
  refuses a field the command throws after the write, and no reply is made. Whether
  the platform accepts a reply to the interaction is not modelled: the call is
  recorded.
\<close>

definition warn_execute ::
  "warn_interaction \<Rightarrow> filesystem \<Rightarrow> effect list \<times> filesystem \<times> outcome" where
  "warn_execute i fsys =
     (case wi_staff i of
        NullMember \<Rightarrow> ([], fsys, Threw TypeError)
      | ApiMember _ \<Rightarrow> ([], fsys, Threw TypeError)
      | CachedMember staff \<Rightarrow>
          if \<not> has_Staff_role staff then ([Reply PermissionDenied], fsys, Returned)
          else
            (case wi_target i of
               None \<Rightarrow> ([Reply InvalidTarget], fsys, Returned)
             | Some target \<Rightarrow>
                 if gm_bot target then ([Reply InvalidTarget], fsys, Returned)
                 else
                   (let fsys1 = (if fsys = None then mkdirSync_dataDir fsys else fsys);
                        (logs, warnings) = read_warnings fsys1
                    in case warnings of
                         JOther \<Rightarrow> (logs, fsys1, Threw TypeError)
                       | JArr ws \<Rightarrow>
                           (case writeFileSync_warnings (ws @ [new_warning i staff target]) fsys1 of
                              (fsys2, Threw e) \<Rightarrow> (logs, fsys2, Threw e)
                            | (fsys2, Returned) \<Rightarrow>
                                if \<not> reply_embed_ok i staff target
                                then (logs @ send_dm i target, fsys2, Threw ValidationError)
                                else
                                  (logs @ send_dm i target
                                     @ [Reply (UserWarned (gm_id target) (gm_id staff)
                                          (wi_reason i) (wi_caseId i))],
                                   fsys2, Returned)))))"

section \<open>The text of the warnings file\<close>

text \<open>
  A text is the list of its UTF-16 code units, as the runtime's strings are. The
  characters of the model's strings are the code units below 256. The file is written
  and read as UTF-8, which carries such a text over unchanged.
\<close>

type_synonym utf16 = "nat list"

definition units :: "string \<Rightarrow> utf16" where
  "units s = map of_char s"

subsection \<open>JSON.stringify\<close>

definition hex_digit :: "nat \<Rightarrow> nat" where
  "hex_digit d = (if d < 10 then 48 + d else 87 + d)"

text \<open>
  How \<open>JSON.stringify\<close> writes one code unit of a string: the short escapes for
  backspace, tab, line feed, form feed, carriage return, the double quote and the
  backslash; \<open>\u00\<close> and two lower-case hex digits for the other units below 32; the
  unit itself otherwise.
\<close>

definition escape_unit :: "nat \<Rightarrow> utf16" where
  "escape_unit u =
     (if u = 8 then [92, 98]
      else if u = 9 then [92, 116]
      else if u = 10 then [92, 110]
      else if u = 12 then [92, 102]
      else if u = 13 then [92, 114]
      else if u = 34 then [92, 34]
      else if u = 92 then [92, 92]
      else if u < 32 then [92, 117, 48, 48, hex_digit (u div 16), hex_digit (u mod 16)]
      else [u])"

definition quote :: "utf16 \<Rightarrow> utf16" where
  "quote s = 34 # concat (map escape_unit s) @ [34]"

text \<open>
  One property of an object that stands in an array, with the indentation of two
  spaces the source asks for: four spaces, the quoted key, a colon, a space, the
  quoted value.
\<close>

definition member_text :: "string \<Rightarrow> string \<Rightarrow> utf16" where
  "member_text k v = units ''    '' @ quote (units k) @ units '': '' @ quote (units v)"

definition warning_text :: "Warning \<Rightarrow> utf16" where
  "warning_text w =
     units ''  {'' @ [10]
     @ member_text ''caseId'' (caseId w) @ units '','' @ [10]
     @ member_text ''userId'' (userId w) @ units '','' @ [10]
     @ member_text ''staffId'' (staffId w) @ units '','' @ [10]
     @ member_text ''reason'' (reason w) @ units '','' @ [10]
     @ member_text ''timestamp'' (timestamp w) @ [10]
     @ units ''  }''"

fun join_lines :: "utf16 list \<Rightarrow> utf16" where
  "join_lines [] = []"
| "join_lines [t] = t"
| "join_lines (t # ts) = t @ units '','' @ [10] @ join_lines ts"

text \<open>\<open>JSON.stringify(warnings, null, 2)\<close> of an array of warning records.\<close>

definition stringify_text :: "Warning list \<Rightarrow> utf16" where
  "stringify_text ws =
     (if ws = [] then units ''[]''
      else units ''['' @ [10] @ join_lines (map warning_text ws) @ [10] @ units '']'')"

subsection \<open>JSON.parse\<close>

text \<open>
  A JSON value. A number is kept as the text it was written with. The members of an
  object are in the order of their first appearance, each with the value of its last
  appearance (the runtime lists the keys that are array indices before the others; no
  key of a warning record is one).
\<close>

datatype json =
    JNull
  | JBool bool
  | JNumber utf16
  | JString utf16
  | JArray "json list"
  | JObject "(utf16 \<times> json) list"

definition is_ws :: "nat \<Rightarrow> bool" where
  "is_ws u = (u = 32 \<or> u = 9 \<or> u = 10 \<or> u = 13)"

definition skip_ws :: "utf16 \<Rightarrow> utf16" where
  "skip_ws s = dropWhile is_ws s"

definition hex_value :: "nat \<Rightarrow> nat option" where
  "hex_value u =
     (if 48 \<le> u \<and> u \<le> 57 then Some (u - 48)
      else if 97 \<le> u \<and> u \<le> 102 then Some (u - 87)
      else if 65 \<le> u \<and> u \<le> 70 then Some (u - 55)
      else None)"

definition hex4 :: "nat \<Rightarrow> nat \<Rightarrow> nat \<Rightarrow> nat \<Rightarrow> nat option" where
  "hex4 a b c d =
     (case (hex_value a, hex_value b, hex_value c, hex_value d) of
        (Some p, Some q, Some r, Some s) \<Rightarrow> Some (((p * 16 + q) * 16 + r) * 16 + s)
      | _ \<Rightarrow> None)"

definition unescape :: "nat \<Rightarrow> nat option" where
  "unescape u =
     (if u = 34 then Some 34
      else if u = 92 then Some 92
      else if u = 47 then Some 47
      else if u = 98 then Some 8
      else if u = 102 then Some 12
      else if u = 110 then Some 10
      else if u = 114 then Some 13
      else if u = 116 then Some 9
      else None)"

definition cons_fst :: "nat \<Rightarrow> (utf16 \<times> utf16) option \<Rightarrow> (utf16 \<times> utf16) option" where
  "cons_fst u r = (case r of None \<Rightarrow> None | Some (s, rest) \<Rightarrow> Some (u # s, rest))"

text \<open>
  The characters of a string after its opening quote, up to the closing quote: the
  string and the text after it.
\<close>

function parse_chars :: "utf16 \<Rightarrow> (utf16 \<times> utf16) option" where
  "parse_chars [] = None"
| "parse_chars (u # us) =
     (if u = 34 then Some ([], us)
      else if u = 92 then
        (case us of
           [] \<Rightarrow> None
         | e # r \<Rightarrow>
             if e = 117 then
               (case r of
                  a # b # c # d # r' \<Rightarrow>
                    (case hex4 a b c d of
                       None \<Rightarrow> None
                     | Some n \<Rightarrow> cons_fst n (parse_chars r'))
                | _ \<Rightarrow> None)
             else
               (case unescape e of
                  None \<Rightarrow> None
                | Some n \<Rightarrow> cons_fst n (parse_chars r)))
      else if u < 32 then None
      else cons_fst u (parse_chars us))"
  by pat_completeness auto
termination
  by (relation "measure length") auto

definition is_digit :: "nat \<Rightarrow> bool" where
  "is_digit u = (48 \<le> u \<and> u \<le> 57)"

text \<open>
  A number: an optional minus, a zero or a digit from 1 to 9 followed by digits, an
  optional fraction, an optional exponent. The text of the number and the text after.
\<close>

definition parse_digits :: "utf16 \<Rightarrow> (utf16 \<times> utf16) option" where
  "parse_digits s =
     (if takeWhile is_digit s = [] then None
      else Some (takeWhile is_digit s, dropWhile is_digit s))"

definition parse_int :: "utf16 \<Rightarrow> (utf16 \<times> utf16) option" where
  "parse_int s =
     (case s of
        [] \<Rightarrow> None
      | u # us \<Rightarrow>
          if u = 48 then Some ([48], us)
          else if 49 \<le> u \<and> u \<le> 57
          then Some (u # takeWhile is_digit us, dropWhile is_digit us)
          else None)"

definition parse_frac :: "utf16 \<Rightarrow> (utf16 \<times> utf16) option" where
  "parse_frac s =
     (case s of
        u # us \<Rightarrow>
          if u = 46 then
            (case parse_digits us of None \<Rightarrow> None | Some (ds, r) \<Rightarrow> Some (46 # ds, r))
          else Some ([], s)
      | [] \<Rightarrow> Some ([], s))"

definition parse_exp :: "utf16 \<Rightarrow> (utf16 \<times> utf16) option" where
  "parse_exp s =
     (case s of
        u # us \<Rightarrow>
          if u = 101 \<or> u = 69 then
            (case us of
               v # vs \<Rightarrow>
                 if v = 43 \<or> v = 45 then
                   (case parse_digits vs of
                      None \<Rightarrow> None
                    | Some (ds, r) \<Rightarrow> Some (u # v # ds, r))
                 else
                   (case parse_digits us of
                      None \<Rightarrow> None
                    | Some (ds, r) \<Rightarrow> Some (u # ds, r))
             | [] \<Rightarrow> None)
          else Some ([], s)
      | [] \<Rightarrow> Some ([], s))"

definition parse_number :: "utf16 \<Rightarrow> (utf16 \<times> utf16) option" where
  "parse_number s =
     (let (sign, s1) = (case s of u # us \<Rightarrow> if u = 45 then ([45], us) else ([], s) | [] \<Rightarrow> ([], s))
      in case parse_int s1 of
           None \<Rightarrow> None
         | Some (i, s2) \<Rightarrow>
             (case parse_frac s2 of
                None \<Rightarrow> None
              | Some (f, s3) \<Rightarrow>
                  (case parse_exp s3 of
                     None \<Rightarrow> None
                   | Some (e, s4) \<Rightarrow> Some (sign @ i @ f @ e, s4))))"

definition starts_with :: "utf16 \<Rightarrow> utf16 \<Rightarrow> bool" where
  "starts_with s p = (take (length p) s = p)"

text \<open>
  Storing a member of an object: a key that is there already keeps its place and
  takes the new value.
\<close>

fun put :: "utf16 \<Rightarrow> json \<Rightarrow> (utf16 \<times> json) list \<Rightarrow> (utf16 \<times> json) list" where
  "put k v [] = [(k, v)]"
| "put k v ((k', v') # ms) = (if k' = k then (k, v) # ms else (k', v') # put k v ms)"

text \<open>
  A value, the elements of an array after its opening bracket, and the members of an
  object after its opening brace, each with the text after it. The first argument
  bounds the number of nested calls that are left; \<open>parse_text\<close> starts with more
  than the text has characters.
\<close>

fun parse_value :: "nat \<Rightarrow> utf16 \<Rightarrow> (json \<times> utf16) option"
  and parse_elements :: "nat \<Rightarrow> utf16 \<Rightarrow> (json list \<times> utf16) option"
  and parse_members :: "nat \<Rightarrow> (utf16 \<times> json) list \<Rightarrow> utf16 \<Rightarrow> ((utf16 \<times> json) list \<times> utf16) option"
where
  "parse_value 0 s = None"
| "parse_value (Suc n) s =
     (case skip_ws s of
        [] \<Rightarrow> None
      | u # us \<Rightarrow>
          if u = 123 then
            (case skip_ws us of
               [] \<Rightarrow> None
             | v # vs \<Rightarrow>
                 if v = 125 then Some (JObject [], vs)
                 else
                   (case parse_members n [] (v # vs) of
                      None \<Rightarrow> None
                    | Some (ms, r) \<Rightarrow> Some (JObject ms, r)))
          else if u = 91 then
            (case skip_ws us of
               [] \<Rightarrow> None
             | v # vs \<Rightarrow>
                 if v = 93 then Some (JArray [], vs)
                 else
                   (case parse_elements n (v # vs) of
                      None \<Rightarrow> None
                    | Some (vs', r) \<Rightarrow> Some (JArray vs', r)))
          else if u = 34 then
            (case parse_chars us of None \<Rightarrow> None | Some (str, r) \<Rightarrow> Some (JString str, r))
          else if starts_with (u # us) (units ''true'') then Some (JBool True, drop 4 (u # us))
          else if starts_with (u # us) (units ''false'') then Some (JBool False, drop 5 (u # us))
          else if starts_with (u # us) (units ''null'') then Some (JNull, drop 4 (u # us))
          else
            (case parse_number (u # us) of
               None \<Rightarrow> None
             | Some (num, r) \<Rightarrow> Some (JNumber num, r)))"
| "parse_elements 0 s = None"
| "parse_elements (Suc n) s =
     (case parse_value n s of
        None \<Rightarrow> None
      | Some (v, r) \<Rightarrow>
          (case skip_ws r of
             [] \<Rightarrow> None
           | u # us \<Rightarrow>
               if u = 44 then
                 (case parse_elements n us of
                    None \<Rightarrow> None
                  | Some (vs, r') \<Rightarrow> Some (v # vs, r'))
               else if u = 93 then Some ([v], us)
               else None))"
| "parse_members 0 acc s = None"
| "parse_members (Suc n) acc s =
     (case skip_ws s of
        [] \<Rightarrow> None
      | q # qs \<Rightarrow>
          if q \<noteq> 34 then None
          else
            (case parse_chars qs of
               None \<Rightarrow> None
             | Some (k, r) \<Rightarrow>
                 (case skip_ws r of
                    [] \<Rightarrow> None
                  | c # cs \<Rightarrow>
                      if c \<noteq> 58 then None
                      else
                        (case parse_value n cs of
                           None \<Rightarrow> None
                         | Some (v, r') \<Rightarrow>
                             (case skip_ws r' of
                                [] \<Rightarrow> None
                              | u # us \<Rightarrow>
                                  if u = 44 then parse_members n (put k v acc) us
                                  else if u = 125 then Some (put k v acc, us)
                                  else None)))))"

text \<open>
  \<open>JSON.parse\<close>: one value with white space around it and nothing else, or a
  \<open>SyntaxError\<close>.
\<close>

definition parse_text :: "utf16 \<Rightarrow> error + json" where
  "parse_text s =
     (case parse_value (Suc (length s)) s of
        None \<Rightarrow> Inl SyntaxError
      | Some (v, r) \<Rightarrow> if skip_ws r = [] then Inr v else Inl SyntaxError)"

text \<open>The JSON object of a warning record: its five properties, in the order of the source.\<close>

definition warning_object :: "Warning \<Rightarrow> json" where
  "warning_object w =
     JObject
       [(units ''caseId'', JString (units (caseId w))),
        (units ''userId'', JString (units (userId w))),
        (units ''staffId'', JString (units (staffId w))),
        (units ''reason'', JString (units (reason w))),
        (units ''timestamp'', JString (units (timestamp w)))]"

section \<open>The /ping command\<close>

definition ping_execute :: "int \<Rightarrow> effect list \<times> outcome" where
  "ping_execute latency = ([DeferReply, EditReply (Pong latency)], Returned)"

section \<open>The event handlers\<close>

text \<open>
  The state of one process: the files, and the set \<open>client.postedToHallOfFame\<close>, empty
  when the process starts.
\<close>

record bot =
  files :: filesystem
  postedToHallOfFame :: "string set"

definition start :: "filesystem \<Rightarrow> bot" where
  "start fsys = \<lparr> files = fsys, postedToHallOfFame = {} \<rparr>"

record user =
  u_bot :: bool
  u_tag :: string
  u_avatarURL :: string

record attachment =
  at_contentType :: "string option"
  at_url :: string

record guild =
  g_id :: string
  g_channels :: channel_cache

record Message =
  msg_id :: string
  msg_author :: "user option"
  msg_guild :: "guild option"
  msg_guildId :: "string option"
  msg_channelId :: string
  msg_inTextChannel :: bool
  msg_attachments :: "attachment list"
  msg_hasThread :: bool
  msg_content :: string
  msg_url :: string

text \<open>
  \<open>loadStarboardConfigs\<close>: an empty array when the file is missing; the parsed value
  otherwise, and an empty array with a log line when reading throws.
\<close>

definition loadStarboardConfigs :: "filesystem \<Rightarrow> effect list \<times> StarboardConfig json_value" where
  "loadStarboardConfigs fsys =
     (case starboard_file fsys of
        None \<Rightarrow> ([], JArr [])
      | Some txt \<Rightarrow>
          (case JSON_parse txt of
             Inl e \<Rightarrow> ([ConsoleError ''Error loading starboard configs:''], JArr [])
           | Inr v \<Rightarrow> ([], v)))"

text \<open>
  The call \<open>threads.create\<close> with its \<open>try\<close>: the call, and a log line when the platform
  refuses it.
\<close>

definition create_thread :: "string \<Rightarrow> string \<Rightarrow> string \<Rightarrow> bool \<Rightarrow> effect list" where
  "create_thread channel message e ok =
     ThreadCreate channel message e # (if ok then [] else [ConsoleError ''Thread creation failed''])"

subsection \<open>Message created\<close>

record message_event =
  me_message :: Message
  me_reactOk :: bool
  me_threadOk :: bool

definition onMessageCreate :: "message_event \<Rightarrow> bot \<Rightarrow> effect list \<times> bot \<times> outcome" where
  "onMessageCreate ev st =
     (let message = me_message ev in
      case msg_author message of
        None \<Rightarrow> ([], st, Threw TypeError)
      | Some author \<Rightarrow>
          if u_bot author \<or> msg_guild message = None then ([], st, Returned)
          else
            (let (logs, configs) = loadStarboardConfigs (files st) in
             case configs of
               JOther \<Rightarrow> (logs, st, Threw TypeError)
             | JArr cs \<Rightarrow>
                 (case find (\<lambda>c. Some (guildId c) = msg_guildId message) cs of
                    None \<Rightarrow> (logs, st, Returned)
                  | Some cfg \<Rightarrow>
                      if msg_channelId message \<notin> set (channelIds cfg)
                      then (logs, st, Returned)
                      else if onlyAttachments cfg \<and> length (msg_attachments message) = 0
                      then (logs, st, Returned)
                      else
                        (logs
                           @ React (msg_id message) (emoji cfg)
                             # (if me_reactOk ev then []
                                else [ConsoleError ''Starboard reaction failed''])
                           @ (if autoThread cfg \<and> msg_inTextChannel message
                              then create_thread (msg_channelId message) (msg_id message)
                                     (emoji cfg) (me_threadOk ev)
                              else []),
                         st, Returned))))"

subsection \<open>Reaction added\<close>

text \<open>
  What one reaction-add event brings. The fields of the reaction are those read after
  \<open>reaction.fetch()\<close>; \<open>re_fetchOk\<close> and \<open>re_msgFetchOk\<close> say whether the two guarded
  fetches resolve, \<open>re_fullMsg\<close> is what the last, unguarded \<open>msg.fetch()\<close> resolves to
  (\<open>None\<close> when it rejects), \<open>re_threadOk\<close> and \<open>re_sendOk\<close> whether the platform accepts
  the thread and the Hall-of-Fame message, \<open>re_embedOk\<close> whether the embed builder
  takes the author, description, footer and image it is given (it checks their
  lengths and the URLs, and throws when a check fails).
\<close>

record reaction_event =
  re_userBot :: bool
  re_partial :: bool
  re_fetchOk :: bool
  re_guildId :: "string option"
  re_emoji :: string
  re_count :: "int option"
  re_msgPartial :: bool
  re_msgFetchOk :: bool
  re_channelId :: string
  re_fullMsg :: "Message option"
  re_threadOk :: bool
  re_embedOk :: bool
  re_sendOk :: bool

definition isTextBased :: "ChannelType \<Rightarrow> bool" where
  "isTextBased t = (t \<noteq> GuildCategory \<and> t \<noteq> GuildForum)"

definition isThread :: "ChannelType \<Rightarrow> bool" where
  "isThread t = (t = AnnouncementThread \<or> t = PublicThread \<or> t = PrivateThread)"

definition startsWith :: "string \<Rightarrow> string \<Rightarrow> bool" where
  "startsWith s p = (take (length p) s = p)"

definition build_embed :: "StarboardConfig \<Rightarrow> int \<Rightarrow> Message \<Rightarrow> user \<Rightarrow> embed" where
  "build_embed cfg count fullMsg msgAuthor =
     \<lparr> em_authorName = (if u_tag msgAuthor = [] then ''Unknown User'' else u_tag msgAuthor),
       em_description = (if msg_content fullMsg = [] then None else Some (msg_content fullMsg)),
       em_footerEmoji = emoji cfg,
       em_footerCount = count,
       em_footerUrl = msg_url fullMsg,
       em_image =
         (case msg_attachments fullMsg of
            [] \<Rightarrow> None
          | a # _ \<Rightarrow>
              (case at_contentType a of
                 None \<Rightarrow> None
               | Some t \<Rightarrow> if startsWith t ''image'' then Some (at_url a) else None)) \<rparr>"

text \<open>
  The handler is an \<open>async\<close> function: at each \<open>await\<close> it hands control back, other
  handlers may run, and it goes on later, over the state as it is then. A handler that
  waits is kept as the place it waits at, with the local values it still needs.
\<close>

datatype pending =
    AwaitReactionFetch reaction_event "StarboardConfig json_value"
  | AwaitMessageFetch reaction_event StarboardConfig
  | AwaitFullMessage reaction_event StarboardConfig
  | AwaitThread reaction_event StarboardConfig Message
  | AwaitSend reaction_event Message

datatype status = Done outcome | Await pending

type_synonym progress = "effect list \<times> bot \<times> status"

text \<open>Calls made before a piece of the handler, put in front of its calls.\<close>

definition after_calls :: "effect list \<Rightarrow> progress \<Rightarrow> progress" where
  "after_calls fx p = (fx @ fst p, snd p)"

text \<open>After \<open>await textChan.send\<close>: the send rejected, or the id is added to the set.\<close>

definition after_send :: "reaction_event \<Rightarrow> Message \<Rightarrow> bot \<Rightarrow> progress" where
  "after_send ev fullMsg st =
     (if re_sendOk ev
      then ([], st\<lparr>postedToHallOfFame := insert (msg_id fullMsg) (postedToHallOfFame st)\<rparr>,
            Done Returned)
      else ([], st, Done (Threw DiscordAPIError)))"

text \<open>
  The Hall-of-Fame block up to its \<open>await\<close>: the conditions, the look into the posted
  set, the target channel, the embed (the builder may throw), and the call of
  \<open>textChan.send\<close>. Nothing is awaited between the look into the set and the call.
\<close>

definition hallOfFame :: "reaction_event \<Rightarrow> StarboardConfig \<Rightarrow> Message \<Rightarrow> bot \<Rightarrow> progress" where
  "hallOfFame ev cfg fullMsg st =
     (case (hallOfFameChannelId cfg, threshold cfg) of
        (Some hof, Some t) \<Rightarrow>
          if hof = [] \<or> t = 0 then ([], st, Done Returned)
          else
            (let count = (case re_count ev of None \<Rightarrow> 0 | Some n \<Rightarrow> n) in
             if \<not> t \<le> count then ([], st, Done Returned)
             else if msg_id fullMsg \<in> postedToHallOfFame st then ([], st, Done Returned)
             else
               (case msg_guild fullMsg of
                  None \<Rightarrow> ([], st, Done Returned)
                | Some g \<Rightarrow>
                    (case g_channels g hof of
                       None \<Rightarrow> ([], st, Done Returned)
                     | Some hofChan \<Rightarrow>
                         if \<not> isTextBased hofChan \<or> isThread hofChan
                         then ([], st, Done Returned)
                         else
                           (case msg_author fullMsg of
                              None \<Rightarrow>
                                ([ConsoleError ''Message author is null''], st, Done Returned)
                            | Some msgAuthor \<Rightarrow>
                                if \<not> re_embedOk ev
                                then ([], st, Done (Threw ValidationError))
                                else
                                  ([HofSend hof (msg_id fullMsg)
                                      (build_embed cfg count fullMsg msgAuthor)],
                                   st, Await (AwaitSend ev fullMsg))))))
      | _ \<Rightarrow> ([], st, Done Returned))"

text \<open>After \<open>await threads.create\<close>, with its \<open>catch\<close>, on to the Hall-of-Fame block.\<close>

definition after_thread :: "reaction_event \<Rightarrow> StarboardConfig \<Rightarrow> Message \<Rightarrow> bot \<Rightarrow> progress" where
  "after_thread ev cfg fullMsg st =
     after_calls (if re_threadOk ev then [] else [ConsoleError ''Thread creation failed''])
       (hallOfFame ev cfg fullMsg st)"

text \<open>
  After the unguarded \<open>await msg.fetch()\<close>: the attachments rule, then the thread block,
  which calls \<open>threads.create\<close> and waits, or straight on to the Hall-of-Fame block.
\<close>

definition after_full_message :: "reaction_event \<Rightarrow> StarboardConfig \<Rightarrow> bot \<Rightarrow> progress" where
  "after_full_message ev cfg st =
     (case re_fullMsg ev of
        None \<Rightarrow> ([], st, Done (Threw DiscordAPIError))
      | Some fullMsg \<Rightarrow>
          if onlyAttachments cfg \<and> length (msg_attachments fullMsg) = 0
          then ([], st, Done Returned)
          else if autoThread cfg \<and> msg_inTextChannel fullMsg \<and> \<not> msg_hasThread fullMsg
          then ([ThreadCreate (msg_channelId fullMsg) (msg_id fullMsg) (emoji cfg)], st,
                Await (AwaitThread ev cfg fullMsg))
          else hallOfFame ev cfg fullMsg st)"

text \<open>The channel checks, up to the unguarded \<open>await msg.fetch()\<close>.\<close>

definition check_channel :: "reaction_event \<Rightarrow> StarboardConfig \<Rightarrow> bot \<Rightarrow> progress" where
  "check_channel ev cfg st =
     (if re_channelId ev = [] then ([], st, Done Returned)
      else if re_channelId ev \<notin> set (channelIds cfg) then ([], st, Done Returned)
      else ([], st, Await (AwaitFullMessage ev cfg)))"

text \<open>
  The guild, config and emoji checks, over the configs loaded when the handler
  started; then the guarded fetch of a partial message.
\<close>

definition check_guild :: "reaction_event \<Rightarrow> StarboardConfig json_value \<Rightarrow> bot \<Rightarrow> progress" where
  "check_guild ev configs st =
     (case re_guildId ev of
        None \<Rightarrow> ([], st, Done Returned)
      | Some gid \<Rightarrow>
          if gid = [] then ([], st, Done Returned)
          else
            (case configs of
               JOther \<Rightarrow> ([], st, Done (Threw TypeError))
             | JArr cs \<Rightarrow>
                 (case find (\<lambda>c. guildId c = gid) cs of
                    None \<Rightarrow> ([], st, Done Returned)
                  | Some cfg \<Rightarrow>
                      if re_emoji ev \<noteq> emoji cfg then ([], st, Done Returned)
                      else if re_msgPartial ev then ([], st, Await (AwaitMessageFetch ev cfg))
                      else check_channel ev cfg st)))"

text \<open>
  The listener as the emitter calls it: it runs up to its first \<open>await\<close>. The configs
  are loaded here, before anything is awaited.
\<close>

definition onMessageReactionAdd :: "reaction_event \<Rightarrow> bot \<Rightarrow> progress" where
  "onMessageReactionAdd ev st =
     (if re_userBot ev then ([], st, Done Returned)
      else
        (let (logs, configs) = loadStarboardConfigs (files st) in
         if re_partial ev then (logs, st, Await (AwaitReactionFetch ev configs))
         else after_calls logs (check_guild ev configs st)))"

text \<open>A waiting handler goes on, over the state of that moment.\<close>

definition resume :: "pending \<Rightarrow> bot \<Rightarrow> progress" where
  "resume k st =
     (case k of
        AwaitReactionFetch ev configs \<Rightarrow>
          if re_fetchOk ev then check_guild ev configs st
          else ([ConsoleError ''Something went wrong when fetching the reaction:''], st,
                Done Returned)
      | AwaitMessageFetch ev cfg \<Rightarrow>
          if re_msgFetchOk ev then check_channel ev cfg st
          else ([ConsoleError ''Something went wrong when fetching the message:''], st,
                Done Returned)
      | AwaitFullMessage ev cfg \<Rightarrow> after_full_message ev cfg st
      | AwaitThread ev cfg fullMsg \<Rightarrow> after_thread ev cfg fullMsg st
      | AwaitSend ev fullMsg \<Rightarrow> after_send ev fullMsg st)"

text \<open>How many more times a waiting handler can wait, at most.\<close>

fun awaits_left :: "status \<Rightarrow> nat" where
  "awaits_left (Done _) = 0"
| "awaits_left (Await (AwaitSend _ _)) = 1"
| "awaits_left (Await (AwaitThread _ _ _)) = 2"
| "awaits_left (Await (AwaitFullMessage _ _)) = 3"
| "awaits_left (Await (AwaitMessageFetch _ _)) = 4"
| "awaits_left (Await (AwaitReactionFetch _ _)) = 5"

subsection \<open>Slash commands\<close>

datatype command =
    Starboard starboard_interaction
  | Warn warn_interaction
  | Ping int
  | NotLoaded

text \<open>
  The dispatcher runs the command's \<open>execute\<close>; when that throws it logs and answers
  with the failure message, as a follow-up when a reply went out already. A command
  that is not in the collection is ignored.
\<close>

definition replied :: "effect list \<Rightarrow> bool" where
  "replied fx = list_ex (\<lambda>e. case e of Reply _ \<Rightarrow> True | DeferReply \<Rightarrow> True | _ \<Rightarrow> False) fx"

definition execute :: "command \<Rightarrow> filesystem \<Rightarrow> effect list \<times> filesystem \<times> outcome" where
  "execute c fsys =
     (case c of
        Starboard i \<Rightarrow> starboard_execute i fsys
      | Warn i \<Rightarrow> warn_execute i fsys
      | Ping latency \<Rightarrow> (fst (ping_execute latency), fsys, snd (ping_execute latency))
      | NotLoaded \<Rightarrow> ([], fsys, Returned))"

definition onInteractionCreate :: "command \<Rightarrow> bot \<Rightarrow> effect list \<times> bot \<times> outcome" where
  "onInteractionCreate c st =
     (case execute c (files st) of
        (fx, fsys', Returned) \<Rightarrow> (fx, st\<lparr>files := fsys'\<rparr>, Returned)
      | (fx, fsys', Threw e) \<Rightarrow>
          (fx @ [ConsoleError ''Error executing'',
                 if replied fx then FollowUp CommandFailed else Reply CommandFailed],
           st\<lparr>files := fsys'\<rparr>, Returned))"

subsection \<open>A process lifetime\<close>

datatype event =
    MessageCreate message_event
  | MessageReactionAdd reaction_event
  | InteractionCreate command

text \<open>
  The emitter calls the listener of an event. The message-create handler and the
  commands read and write the state only before their first \<open>await\<close> (the config is
  loaded, the files are read and written, synchronously, before any reaction, thread,
  message or reply is awaited), so what they do is one step. The reaction-add handler
  reads the posted set and writes it after awaits: it is delivered up to its first
  \<open>await\<close> and goes on in later steps.
\<close>

definition deliver :: "event \<Rightarrow> bot \<Rightarrow> progress" where
  "deliver e st =
     (case e of
        MessageCreate ev \<Rightarrow> (case onMessageCreate ev st of (fx, st', oc) \<Rightarrow> (fx, st', Done oc))
      | MessageReactionAdd ev \<Rightarrow> onMessageReactionAdd ev st
      | InteractionCreate c \<Rightarrow>
          (case onInteractionCreate c st of (fx, st', oc) \<Rightarrow> (fx, st', Done oc)))"

text \<open>
  A process is its state and the handlers that wait. A step delivers an event, or lets
  the waiting handler at some place in the list go on to its next \<open>await\<close> or its end;
  a step that names no waiting handler does nothing. Handlers overlap in any way the
  steps allow. A process lifetime is a list of steps from \<open>start\<close>; every prefix of a
  lifetime is one, so a process that ends early is covered.
\<close>

type_synonym process = "bot \<times> pending list"

datatype step = Deliver event | Resume nat

definition exec1 :: "step \<Rightarrow> process \<Rightarrow> effect list \<times> process" where
  "exec1 s p =
     (case p of (st, waiting) \<Rightarrow>
        (case s of
           Deliver e \<Rightarrow>
             (case deliver e st of
                (fx, st', Done _) \<Rightarrow> (fx, (st', waiting))
              | (fx, st', Await k) \<Rightarrow> (fx, (st', waiting @ [k])))
         | Resume n \<Rightarrow>
             if n < length waiting
             then
               (case resume (waiting ! n) st of
                  (fx, st', Done _) \<Rightarrow> (fx, (st', take n waiting @ drop (Suc n) waiting))
                | (fx, st', Await k) \<Rightarrow> (fx, (st', waiting[n := k])))
             else ([], p)))"

fun exec :: "step list \<Rightarrow> process \<Rightarrow> effect list \<times> process" where
  "exec [] p = ([], p)"
| "exec (s # ss) p =
     (case exec1 s p of (fx, p') \<Rightarrow> (case exec ss p' of (fx', p'') \<Rightarrow> (fx @ fx', p'')))"

text \<open>
  A handler run to its end with nothing in between: each \<open>await\<close> is resumed at once.
\<close>

function finish :: "progress \<Rightarrow> effect list \<times> bot \<times> outcome" where
  "finish (fx, st, Done oc) = (fx, st, oc)"
| "finish (fx, st, Await k) =
     finish (fx @ fst (resume k st), fst (snd (resume k st)), snd (snd (resume k st)))"
  by pat_completeness auto
termination
proof (relation "measure (\<lambda>p. awaits_left (snd (snd p)))")
  show "wf (measure (\<lambda>p. awaits_left (snd (snd p))))" by simp
next
  fix fx :: "effect list" and st :: bot and k :: pending
  have hof: "\<And>ev cfg m. awaits_left (snd (snd (hallOfFame ev cfg m st))) \<le> 1"
    by (simp add: hallOfFame_def Let_def split: option.splits prod.splits)
  have thr: "\<And>ev cfg m. awaits_left (snd (snd (after_thread ev cfg m st))) \<le> 1"
    using hof by (simp add: after_thread_def after_calls_def)
  have hof2: "\<And>ev cfg m. awaits_left (snd (snd (hallOfFame ev cfg m st))) \<le> 2"
    by (rule order_trans [OF hof]) simp
  have ful: "\<And>ev cfg. awaits_left (snd (snd (after_full_message ev cfg st))) \<le> 2"
    by (simp add: after_full_message_def hof2 split: option.splits)
  have chn: "\<And>ev cfg. awaits_left (snd (snd (check_channel ev cfg st))) \<le> 3"
    by (simp add: check_channel_def)
  have chn4: "\<And>ev cfg. awaits_left (snd (snd (check_channel ev cfg st))) \<le> 4"
    by (rule order_trans [OF chn]) simp
  have gld: "\<And>ev cs. awaits_left (snd (snd (check_guild ev cs st))) \<le> 4"
    by (simp add: check_guild_def chn4 split: option.splits json_value.splits)
  have "awaits_left (snd (snd (resume k st))) < awaits_left (Await k)"
  proof (cases k)
    case (AwaitReactionFetch ev cs)
    then show ?thesis using gld [of ev cs] by (simp add: resume_def)
  next
    case (AwaitMessageFetch ev cfg)
    then show ?thesis using chn [of ev cfg] by (simp add: resume_def)
  next
    case (AwaitFullMessage ev cfg)
    then show ?thesis using ful [of ev cfg] by (simp add: resume_def)
  next
    case (AwaitThread ev cfg m)
    then show ?thesis using thr [of ev cfg m] by (simp add: resume_def)
  next
    case (AwaitSend ev m)
    then show ?thesis by (simp add: resume_def after_send_def)
  qed
  then show "((fx @ fst (resume k st), fst (snd (resume k st)), snd (snd (resume k st))),
               (fx, st, Await k)) \<in> measure (\<lambda>p. awaits_left (snd (snd p)))"
    by simp
qed

definition handle :: "event \<Rightarrow> bot \<Rightarrow> effect list \<times> bot \<times> outcome" where
  "handle e st = finish (deliver e st)"

text \<open>
  The schedule in which no two handlers overlap: every event is handled to its end
  before the next one is delivered. The calls made, in order, and the state reached. A
  handler that throws leaves the state as it was at the throw, and the run goes on with
  the next event; where the runtime ends the process at a listener that throws, the
  lifetime is the run up to there.
\<close>

fun run :: "event list \<Rightarrow> bot \<Rightarrow> effect list \<times> bot" where
  "run [] st = ([], st)"
| "run (e # es) st =
     (case handle e st of
        (fx, st', _) \<Rightarrow> (case run es st' of (fx', st'') \<Rightarrow> (fx @ fx', st'')))"

section \<open>Notions the statements use\<close>

text \<open>
  Keeping, of every element, its first occurrence only, in the order of those first
  occurrences.
\<close>

fun first_occurrences :: "'a list \<Rightarrow> 'a list" where
  "first_occurrences [] = []"
| "first_occurrences (x # xs) = x # first_occurrences (filter (\<lambda>y. y \<noteq> x) xs)"

text \<open>The calls \<open>message.react\<close> made on message \<open>m\<close> among the calls \<open>fx\<close>.\<close>

definition reacts_on :: "string \<Rightarrow> effect list \<Rightarrow> effect list" where
  "reacts_on m fx = filter (\<lambda>e. case e of React m' _ \<Rightarrow> m' = m | _ \<Rightarrow> False) fx"

text \<open>The Hall-of-Fame sends made for message \<open>m\<close> among the calls \<open>fx\<close>.\<close>

definition reposts_of :: "string \<Rightarrow> effect list \<Rightarrow> effect list" where
  "reposts_of m fx = filter (\<lambda>e. case e of HofSend _ m' _ \<Rightarrow> m' = m | _ \<Rightarrow> False) fx"


text \<open>
  The calls the message-create handler may make: a reaction, a thread, a log line.
\<close>

definition react_thread_or_log :: "effect \<Rightarrow> bool" where
  "react_thread_or_log e =
     (case e of React _ _ \<Rightarrow> True | ThreadCreate _ _ _ \<Rightarrow> True | ConsoleError _ \<Rightarrow> True
      | _ \<Rightarrow> False)"

text \<open>
  Running \<open>/warn\<close> for each invocation of a list in turn, keeping the files only.
\<close>

fun warn_each :: "warn_interaction list \<Rightarrow> filesystem \<Rightarrow> filesystem" where
  "warn_each [] fsys = fsys"
| "warn_each (i # rest) fsys = warn_each rest (fst (snd (warn_execute i fsys)))"

section \<open>A sample guild\<close>

text \<open>
  One guild with two monitored text channels, a Hall-of-Fame channel and a threshold of
  two reactions; used to run the handlers on explicit inputs.
\<close>

definition ex_channels :: channel_cache where
  "ex_channels =
     [''111111111111111111'' \<mapsto> GuildText,
      ''222222222222222222'' \<mapsto> GuildText,
      ''333333333333333333'' \<mapsto> GuildText]"

definition ex_interaction :: starboard_interaction where
  "ex_interaction =
     \<lparr> si_guildId = ''900000000000000001'',
       si_guild = Some ex_channels,
       si_channels = ''<#111111111111111111> 222222222222222222 not-an-id'',
       si_emoji = ''*'',
       si_only_attachments = Some True,
       si_auto_thread = None,
       si_hall_of_fame = Some ''333333333333333333'',
       si_threshold = Some 2 \<rparr>"

definition ex_config :: StarboardConfig where
  "ex_config =
     \<lparr> guildId = ''900000000000000001'',
       channelIds = [''111111111111111111'', ''222222222222222222''],
       emoji = ''*'',
       onlyAttachments = True,
       autoThread = False,
       hallOfFameChannelId = Some ''333333333333333333'',
       threshold = Some 2 \<rparr>"

definition ex_files :: filesystem where
  "ex_files = Some \<lparr> starboard_json = Some (JsonArray [ex_config]), warnings_json = None \<rparr>"

definition ex_author :: user where
  "ex_author = \<lparr> u_bot = False, u_tag = ''ada#0001'', u_avatarURL = ''https://cdn/ada.png'' \<rparr>"

definition ex_message :: Message where
  "ex_message =
     \<lparr> msg_id = ''444444444444444444'',
       msg_author = Some ex_author,
       msg_guild = Some \<lparr> g_id = ''900000000000000001'', g_channels = ex_channels \<rparr>,
       msg_guildId = Some ''900000000000000001'',
       msg_channelId = ''111111111111111111'',
       msg_inTextChannel = True,
       msg_attachments = [\<lparr> at_contentType = Some ''image/png'', at_url = ''https://cdn/a.png'' \<rparr>],
       msg_hasThread = False,
       msg_content = ''look'',
       msg_url = ''https://discord/444444444444444444'' \<rparr>"

definition ex_message_event :: message_event where
  "ex_message_event = \<lparr> me_message = ex_message, me_reactOk = True, me_threadOk = True \<rparr>"

definition ex_reaction :: reaction_event where
  "ex_reaction =
     \<lparr> re_userBot = False,
       re_partial = False,
       re_fetchOk = True,
       re_guildId = Some ''900000000000000001'',
       re_emoji = ''*'',
       re_count = Some 2,
       re_msgPartial = False,
       re_msgFetchOk = True,
       re_channelId = ''111111111111111111'',
       re_fullMsg = Some ex_message,
       re_threadOk = True,
       re_embedOk = True,
       re_sendOk = True \<rparr>"

definition ex_staff :: GuildMember where
  "ex_staff = \<lparr> gm_id = ''555555555555555555'', gm_roles = [''Member'', ''Staff''], gm_bot = False \<rparr>"

definition ex_member :: GuildMember where
  "ex_member = \<lparr> gm_id = ''666666666666666666'', gm_roles = [''Member''], gm_bot = False \<rparr>"

definition ex_robot :: GuildMember where
  "ex_robot = \<lparr> gm_id = ''777777777777777777'', gm_roles = [], gm_bot = True \<rparr>"

definition ex_warn :: warn_interaction where
  "ex_warn =
     \<lparr> wi_staff = CachedMember ex_staff,
       wi_target = Some ex_member,
       wi_reason = ''spam'',
       wi_caseId = ''K3J9X0AB'',
       wi_now = ''2024-01-01T00:00:00.000Z'',
       wi_dmOk = True \<rparr>"

definition ex_other :: StarboardConfig where
  "ex_other = ex_config\<lparr>guildId := ''900000000000000002'', emoji := ''+''\<rparr>"

definition ex_data :: config_data where
  "ex_data = configData ex_interaction [''222222222222222222'']"

lemmas ex_defs = ex_channels_def ex_interaction_def ex_config_def ex_files_def ex_author_def
  ex_message_def ex_message_event_def ex_reaction_def ex_staff_def ex_member_def ex_robot_def
  ex_warn_def

section \<open>Properties of /starboard\<close>

declare matchAll.simps(2) [simp del]

lemma foldl_Set_add:
  "foldl Set_add acc xs = acc @ first_occurrences (filter (\<lambda>x. x \<notin> set acc) xs)"
proof (induction xs arbitrary: acc)
  case Nil
  show ?case by simp
next
  case (Cons x xs)
  show ?case
  proof (cases "x \<in> set acc")
    case True
    then show ?thesis using Cons.IH [of acc] by (simp add: Set_add_def)
  next
    case False
    have eq: "filter (\<lambda>y. y \<notin> set (acc @ [x])) xs
                = filter (\<lambda>y. y \<noteq> x) (filter (\<lambda>y. y \<notin> set acc) xs)"
      by (induction xs) auto
    from False show ?thesis using Cons.IH [of "acc @ [x]"] eq by (simp add: Set_add_def)
  qed
qed

lemma new_Set_first_occurrences: "new_Set xs = first_occurrences xs"
  by (simp add: new_Set_def foldl_Set_add)

lemma set_first_occurrences: "set (first_occurrences xs) = set xs"
proof (induction xs rule: first_occurrences.induct)
  case 1
  show ?case by simp
next
  case (2 x xs)
  then show ?case by auto
qed

lemma distinct_first_occurrences: "distinct (first_occurrences xs)"
proof (induction xs rule: first_occurrences.induct)
  case 1
  show ?case by simp
next
  case (2 x xs)
  then show ?case by (simp add: set_first_occurrences)
qed

lemma validate_channels_filter:
  "validate_channels guild ids acc = acc @ filter (\<lambda>i. cache_get guild i = Some GuildText) ids"
  by (induction ids arbitrary: acc) auto

lemma validChannelIds_of_filter:
  "validChannelIds_of i
     = filter (\<lambda>c. cache_get (si_guild i) c = Some GuildText) (extract_ids (si_channels i))"
  by (simp add: validChannelIds_of_def validate_channels_filter)

text \<open>
  Claim C9. The ids taken from the channels input hold each identifier once, at the
  place of its first match, however often it occurs in the input; the same identifiers
  are there as in the list of matches; and the validated list has no duplicate either.
\<close>

theorem extracted_ids_distinct:
  "distinct (extract_ids channelsInput)
   \<and> extract_ids channelsInput = first_occurrences (matchAll channelsInput)
   \<and> set (extract_ids channelsInput) = set (matchAll channelsInput)
   \<and> distinct (validChannelIds_of i)"
  by (simp add: extract_ids_def new_Set_first_occurrences distinct_first_occurrences
        set_first_occurrences validChannelIds_of_filter)

theorem extracted_ids_distinct_witness:
  "matchAll ''222222222222222222 <#111111111111111111> 222222222222222222''
     = [''222222222222222222'', ''111111111111111111'', ''222222222222222222'']
   \<and> extract_ids ''222222222222222222 <#111111111111111111> 222222222222222222''
     = [''222222222222222222'', ''111111111111111111'']
   \<and> distinct (extract_ids ''222222222222222222 <#111111111111111111> 222222222222222222'')"
proof -
  have m: "matchAll ''222222222222222222 <#111111111111111111> 222222222222222222''
     = [''222222222222222222'', ''111111111111111111'', ''222222222222222222'']"
    by code_simp
  from extracted_ids_distinct [of "''222222222222222222 <#111111111111111111> 222222222222222222''"]
  show ?thesis unfolding m by simp
qed

lemma takeWhile_append_stop:
  "pre \<noteq> [] \<Longrightarrow> \<not> P (last pre) \<Longrightarrow> takeWhile P (pre @ rest) = takeWhile P pre"
proof -
  assume "pre \<noteq> []" "\<not> P (last pre)"
  then have "\<exists>x\<in>set pre. \<not> P x" using last_in_set by blast
  then show ?thesis by auto
qed

lemma takeWhile_shorter:
  "pre \<noteq> [] \<Longrightarrow> \<not> P (last pre) \<Longrightarrow> length (takeWhile P pre) < length pre"
proof -
  assume "pre \<noteq> []" "\<not> P (last pre)"
  then have "\<exists>x\<in>set pre. \<not> P x" using last_in_set by blast
  then have "takeWhile P pre \<noteq> pre" by (simp add: takeWhile_eq_all_conv)
  moreover have "length (takeWhile P pre) \<le> length pre" by (rule length_takeWhile_le)
  ultimately show ?thesis
    by (metis le_neq_implies_less takeWhile_eq_take take_all_iff)
qed

lemma matchAll_Cons:
  "matchAll (c # cs) =
     (if 17 \<le> length (digits_at (c # cs))
      then digits_at (c # cs) # matchAll (drop (length (digits_at (c # cs))) (c # cs))
      else matchAll cs)"
  unfolding digits_at_def by (rule matchAll.simps(2))

text \<open>A stretch of the input that ends in a non-digit is scanned on its own.\<close>

lemma matchAll_append:
  "pre = [] \<or> \<not> isDigit (last pre) \<Longrightarrow> matchAll (pre @ rest) = matchAll pre @ matchAll rest"
proof (induction pre rule: matchAll.induct)
  case 1
  show ?case by simp
next
  case (2 c cs)
  let ?p = "c # cs"
  let ?d = "digits_at ?p"
  from "2.prems" have nd: "\<not> isDigit (last ?p)" by simp
  have tw: "digits_at (c # (cs @ rest)) = ?d"
    using takeWhile_append_stop [of ?p isDigit rest] nd by (simp add: digits_at_def)
  have lt: "length (takeWhile isDigit ?p) < length ?p"
    using nd by (intro takeWhile_shorter) simp_all
  have len: "length ?d < length ?p" using lt by (simp add: digits_at_def)
  show ?case
  proof (cases "17 \<le> length ?d")
    case True
    let ?r = "drop (length ?d) ?p"
    have "last ?r = last ?p" using len by (simp only: last_drop)
    with nd have cond: "?r = [] \<or> \<not> isDigit (last ?r)" by simp
    have dr: "drop (length ?d) (c # (cs @ rest)) = ?r @ rest"
      using len by (simp add: drop_Cons split: nat.splits)
    have ih: "matchAll (?r @ rest) = matchAll ?r @ matchAll rest"
      using "2.IH"(1) [OF True [unfolded digits_at_def] cond [unfolded digits_at_def]]
      by (simp only: digits_at_def)
    have "matchAll (?p @ rest) = ?d # matchAll (drop (length ?d) (c # (cs @ rest)))"
      using True tw by (simp add: matchAll_Cons)
    also have "\<dots> = ?d # matchAll ?r @ matchAll rest" by (simp only: dr ih)
    also have "\<dots> = matchAll ?p @ matchAll rest"
      using True by (simp add: matchAll_Cons [of c cs])
    finally show ?thesis .
  next
    case False
    have cond: "cs = [] \<or> \<not> isDigit (last cs)" using nd by (auto split: if_splits)
    have ih: "matchAll (cs @ rest) = matchAll cs @ matchAll rest"
      using "2.IH"(2) [OF False [unfolded digits_at_def] cond] .
    have "matchAll (?p @ rest) = matchAll (cs @ rest)"
      using False tw by (simp add: matchAll_Cons)
    also have "\<dots> = matchAll ?p @ matchAll rest"
      using ih False by (simp add: matchAll_Cons [of c cs])
    finally show ?thesis .
  qed
qed

text \<open>A run of 17 to 19 digits with no digit after it is matched whole.\<close>

lemma matchAll_run:
  assumes dig: "\<forall>c \<in> set d. isDigit c" and lo: "17 \<le> length d" and hi: "length d \<le> 19"
    and post: "post = [] \<or> \<not> isDigit (hd post)"
  shows "matchAll (d @ post) = d # matchAll post"
proof -
  from lo obtain c cs where d: "d = c # cs" by (cases d) auto
  have tw: "takeWhile isDigit (d @ post) = d"
  proof (cases post)
    case Nil
    then show ?thesis using dig by (simp add: takeWhile_eq_all_conv)
  next
    case (Cons y ys)
    then have "\<not> isDigit y" using post by simp
    then show ?thesis using dig Cons by simp
  qed
  have tk: "digits_at (c # (cs @ post)) = d" using tw hi d by (simp add: digits_at_def)
  have "matchAll (c # (cs @ post)) = d # matchAll (drop (length d) (c # (cs @ post)))"
    using lo by (simp add: matchAll_Cons tk)
  moreover have "drop (length d) (c # (cs @ post)) = post" using d by simp
  ultimately show ?thesis using d by simp
qed

lemma matchAll_contains_run:
  assumes "pre = [] \<or> \<not> isDigit (last pre)" "post = [] \<or> \<not> isDigit (hd post)"
    "\<forall>c \<in> set d. isDigit c" "17 \<le> length d" "length d \<le> 19"
  shows "d \<in> set (matchAll (pre @ d @ post))"
  using matchAll_append [OF assms(1), of "d @ post"] matchAll_run [OF assms(3,4,5,2)] by simp

text \<open>
  Every match is a stretch of the input made of 17 to 19 digits.
\<close>

lemma take_le_takeWhile:
  "n \<le> length (takeWhile P s) \<Longrightarrow> take n (takeWhile P s) = take n s"
  by (induction s arbitrary: n) (auto simp: take_Cons split: nat.splits if_splits)

lemma digits_at_prefix: "digits_at s = take (length (digits_at s)) s"
proof -
  let ?tw = "takeWhile isDigit s"
  have le: "length (digits_at s) \<le> length ?tw" by (simp add: digits_at_def)
  have "digits_at s = take (length (digits_at s)) ?tw"
    by (simp add: digits_at_def min_def)
  also have "\<dots> = take (length (digits_at s)) s"
    using le by (rule take_le_takeWhile)
  finally show ?thesis .
qed

lemma digits_at_digits: "\<forall>c \<in> set (digits_at s). isDigit c"
proof
  fix c
  assume "c \<in> set (digits_at s)"
  then have "c \<in> set (takeWhile isDigit s)"
    unfolding digits_at_def by (rule in_set_takeD)
  then show "isDigit c" by (rule set_takeWhileD [THEN conjunct2])
qed

lemma matchAll_bound:
  "x \<in> set (matchAll s) \<Longrightarrow>
     17 \<le> length x \<and> length x \<le> 19 \<and> (\<forall>c \<in> set x. isDigit c)
     \<and> (\<exists>pre post. s = pre @ x @ post)"
proof (induction s rule: matchAll.induct)
  case 1
  then show ?case by simp
next
  case (2 c cs)
  let ?s = "c # cs"
  let ?d = "digits_at ?s"
  show ?case
  proof (cases "17 \<le> length ?d")
    case True
    have split: "?s = ?d @ drop (length ?d) ?s"
      using digits_at_prefix [of ?s] append_take_drop_id [of "length ?d" ?s] by simp
    from True "2.prems" have "x = ?d \<or> x \<in> set (matchAll (drop (length ?d) ?s))"
      by (simp add: matchAll_Cons [of c cs])
    then show ?thesis
    proof
      assume x: "x = ?d"
      have "length ?d \<le> 19" by (simp add: digits_at_def)
      moreover have "?s = [] @ ?d @ drop (length ?d) ?s" using split by simp
      ultimately show ?thesis using True x digits_at_digits [of ?s] by blast
    next
      assume "x \<in> set (matchAll (drop (length ?d) ?s))"
      with "2.IH"(1) [OF True [unfolded digits_at_def]]
      obtain pre post where b: "17 \<le> length x" "length x \<le> 19" "\<forall>c \<in> set x. isDigit c"
        and r: "drop (length ?d) ?s = pre @ x @ post"
        unfolding digits_at_def by blast
      from split r have "?s = (?d @ pre) @ x @ post" by simp
      with b show ?thesis by blast
    qed
  next
    case False
    with "2.prems" have "x \<in> set (matchAll cs)" by (simp add: matchAll_Cons [of c cs])
    with "2.IH"(2) [OF False [unfolded digits_at_def]]
    obtain pre post where b: "17 \<le> length x" "length x \<le> 19" "\<forall>c \<in> set x. isDigit c"
      and r: "cs = pre @ x @ post"
      by blast
    from r have "?s = (c # pre) @ x @ post" by simp
    with b show ?thesis by blast
  qed
qed

lemma starboard_execute_none_valid:
  "validChannelIds_of i = [] \<Longrightarrow>
     starboard_execute i fsys = ([Reply NoValidTextChannels], fsys, Returned)"
  by (simp add: starboard_execute_def)

lemma starboard_execute_some_valid:
  "validChannelIds_of i \<noteq> [] \<Longrightarrow> Reply NoValidTextChannels \<notin> set (fst (starboard_execute i fsys))"
  by (simp add: starboard_execute_def Let_def split: prod.splits outcome.splits)

lemma example_ids:
  "extract_ids ''<#111111111111111111> 222222222222222222 not-an-id''
     = [''111111111111111111'', ''222222222222222222'']"
  by code_simp

text \<open>
  Claim C6. Every run of 17 to 19 digits that stands between non-digits (or the ends of
  the input) is among the extracted ids, and every extracted id is a stretch of the
  input made of 17 to 19 digits; the valid channel ids are the extracted ids that the
  guild's cache knows as text channels, in the same order; when there is none the
  command replies that no valid text channel was found and does nothing else, and when
  there is one it does not give that reply; and the input
  \<open><#111111111111111111> 222222222222222222 not-an-id\<close>, with both ids text channels of
  the guild, gives the two ids in that order.
\<close>

theorem starboard_channel_ids:
  "((pre = [] \<or> \<not> isDigit (last pre)) \<and> (post = [] \<or> \<not> isDigit (hd post))
      \<and> (\<forall>c \<in> set d. isDigit c) \<and> 17 \<le> length d \<and> length d \<le> 19
      \<longrightarrow> d \<in> set (extract_ids (pre @ d @ post)))
   \<and> (\<forall>x \<in> set (extract_ids channelsInput).
         17 \<le> length x \<and> length x \<le> 19 \<and> (\<forall>c \<in> set x. isDigit c)
         \<and> (\<exists>before after. channelsInput = before @ x @ after))
   \<and> validChannelIds_of i
        = filter (\<lambda>c. cache_get (si_guild i) c = Some GuildText) (extract_ids (si_channels i))
   \<and> (validChannelIds_of i = []
        \<longrightarrow> starboard_execute i fsys = ([Reply NoValidTextChannels], fsys, Returned))
   \<and> (validChannelIds_of i \<noteq> []
        \<longrightarrow> Reply NoValidTextChannels \<notin> set (fst (starboard_execute i fsys)))
   \<and> (si_channels i = ''<#111111111111111111> 222222222222222222 not-an-id''
        \<and> cache_get (si_guild i) ''111111111111111111'' = Some GuildText
        \<and> cache_get (si_guild i) ''222222222222222222'' = Some GuildText
        \<longrightarrow> validChannelIds_of i = [''111111111111111111'', ''222222222222222222''])"
proof (intro conjI impI)
  assume "(pre = [] \<or> \<not> isDigit (last pre)) \<and> (post = [] \<or> \<not> isDigit (hd post))
      \<and> (\<forall>c \<in> set d. isDigit c) \<and> 17 \<le> length d \<and> length d \<le> 19"
  then have "d \<in> set (matchAll (pre @ d @ post))"
    using matchAll_contains_run [of pre post d] by blast
  then show "d \<in> set (extract_ids (pre @ d @ post))"
    by (simp add: extract_ids_def new_Set_first_occurrences set_first_occurrences)
next
  show "\<forall>x \<in> set (extract_ids channelsInput).
         17 \<le> length x \<and> length x \<le> 19 \<and> (\<forall>c \<in> set x. isDigit c)
         \<and> (\<exists>before after. channelsInput = before @ x @ after)"
  proof
    fix x
    assume "x \<in> set (extract_ids channelsInput)"
    then have "x \<in> set (matchAll channelsInput)"
      by (simp add: extract_ids_def new_Set_first_occurrences set_first_occurrences)
    then show "17 \<le> length x \<and> length x \<le> 19 \<and> (\<forall>c \<in> set x. isDigit c)
         \<and> (\<exists>before after. channelsInput = before @ x @ after)"
      by (rule matchAll_bound)
  qed
next
  show "validChannelIds_of i
        = filter (\<lambda>c. cache_get (si_guild i) c = Some GuildText) (extract_ids (si_channels i))"
    by (rule validChannelIds_of_filter)
next
  assume "validChannelIds_of i = []"
  then show "starboard_execute i fsys = ([Reply NoValidTextChannels], fsys, Returned)"
    by (rule starboard_execute_none_valid)
next
  assume "validChannelIds_of i \<noteq> []"
  then show "Reply NoValidTextChannels \<notin> set (fst (starboard_execute i fsys))"
    by (rule starboard_execute_some_valid)
next
  assume "si_channels i = ''<#111111111111111111> 222222222222222222 not-an-id''
        \<and> cache_get (si_guild i) ''111111111111111111'' = Some GuildText
        \<and> cache_get (si_guild i) ''222222222222222222'' = Some GuildText"
  then show "validChannelIds_of i = [''111111111111111111'', ''222222222222222222'']"
    by (simp add: validChannelIds_of_filter example_ids)
qed

theorem starboard_channel_ids_witness:
  "''111111111111111111''
     \<in> set (extract_ids (''<#'' @ ''111111111111111111'' @ ''> 222222222222222222 not-an-id''))
   \<and> validChannelIds_of ex_interaction = [''111111111111111111'', ''222222222222222222'']
   \<and> Reply NoValidTextChannels \<notin> set (fst (starboard_execute ex_interaction ex_files))
   \<and> starboard_execute (ex_interaction\<lparr>si_guild := None\<rparr>) ex_files
        = ([Reply NoValidTextChannels], ex_files, Returned)
   \<and> extract_ids ''12345678901234567890123456789012345678 x''
        = [''1234567890123456789'', ''0123456789012345678'']
   \<and> length ''1234567890123456789'' \<le> 19 \<and> length ''0123456789012345678'' \<le> 19"
proof -
  have long: "extract_ids ''12345678901234567890123456789012345678 x''
        = [''1234567890123456789'', ''0123456789012345678'']"
    by code_simp
  note t1 = starboard_channel_ids [of "''<#''" "''> 222222222222222222 not-an-id''"
      "''111111111111111111''" "''12345678901234567890123456789012345678 x''"
      ex_interaction ex_files]
  note t2 = starboard_channel_ids [of "[]" "[]" "[]" "[]"
      "ex_interaction\<lparr>si_guild := None\<rparr>" ex_files]
  have run: "(''<#'' = [] \<or> \<not> isDigit (last ''<#''))
      \<and> (''> 222222222222222222 not-an-id'' = []
           \<or> \<not> isDigit (hd ''> 222222222222222222 not-an-id''))
      \<and> (\<forall>c \<in> set ''111111111111111111''. isDigit c)
      \<and> 17 \<le> length ''111111111111111111'' \<and> length ''111111111111111111'' \<le> 19"
    by (simp add: isDigit_def)
  have ex: "si_channels ex_interaction = ''<#111111111111111111> 222222222222222222 not-an-id''
        \<and> cache_get (si_guild ex_interaction) ''111111111111111111'' = Some GuildText
        \<and> cache_get (si_guild ex_interaction) ''222222222222222222'' = Some GuildText"
    by (simp add: ex_interaction_def ex_channels_def cache_get_def)
  have a: "''111111111111111111''
     \<in> set (extract_ids (''<#'' @ ''111111111111111111'' @ ''> 222222222222222222 not-an-id''))"
    using t1 run by blast
  have b: "validChannelIds_of ex_interaction = [''111111111111111111'', ''222222222222222222'']"
    using t1 ex by blast
  then have "validChannelIds_of ex_interaction \<noteq> []" by simp
  then have c: "Reply NoValidTextChannels \<notin> set (fst (starboard_execute ex_interaction ex_files))"
    using t1 by blast
  have "validChannelIds_of (ex_interaction\<lparr>si_guild := None\<rparr>)
          = filter (\<lambda>c. cache_get (si_guild (ex_interaction\<lparr>si_guild := None\<rparr>)) c = Some GuildText)
              (extract_ids (si_channels (ex_interaction\<lparr>si_guild := None\<rparr>)))"
    using t2 by blast
  then have "validChannelIds_of (ex_interaction\<lparr>si_guild := None\<rparr>) = []"
    by (simp add: cache_get_def)
  then have d: "starboard_execute (ex_interaction\<lparr>si_guild := None\<rparr>) ex_files
        = ([Reply NoValidTextChannels], ex_files, Returned)"
    using t2 by blast
  have "\<forall>x \<in> set (extract_ids ''12345678901234567890123456789012345678 x'').
          17 \<le> length x \<and> length x \<le> 19 \<and> (\<forall>c \<in> set x. isDigit c)
          \<and> (\<exists>before after. ''12345678901234567890123456789012345678 x'' = before @ x @ after)"
    using t1 by blast
  then have e: "length ''1234567890123456789'' \<le> 19 \<and> length ''0123456789012345678'' \<le> 19"
    unfolding long by simp
  from a b c d long e show ?thesis by blast
qed

lemma saveConfig_array:
  "starboard_file fsys = Some (JsonArray configs) \<Longrightarrow>
   \<exists>d. fsys = Some d \<and> saveConfig g data fsys =
     (Some (d\<lparr>starboard_json :=
              Some (JsonArray (filter (\<lambda>c. guildId c \<noteq> g) configs @ [with_guildId g data]))\<rparr>),
      Returned)"
  by (cases fsys)
     (simp_all add: saveConfig_def starboard_file_def writeFileSync_starboard_def
        JSON_stringify_def)

text \<open>
  Claim C2. When the config file holds an array of records, \<open>saveConfig\<close> for a guild
  returns normally and leaves a file holding an array in which the records of that guild
  are one record alone: the guild id with the channel ids, emoji, two flags, Hall-of-Fame
  channel and threshold that were handed to \<open>saveConfig\<close>. The records of every other
  guild are the ones that were there, unchanged and in their order. The warnings file
  is not touched.
\<close>

theorem saveConfig_one_record_per_guild:
  assumes "starboard_file fsys = Some (JsonArray configs)"
  shows "\<exists>fsys' configs'.
           saveConfig g data fsys = (fsys', Returned)
         \<and> starboard_file fsys' = Some (JsonArray configs')
         \<and> filter (\<lambda>c. guildId c = g) configs'
             = [\<lparr> guildId = g,
                  channelIds = cd_channelIds data,
                  emoji = cd_emoji data,
                  onlyAttachments = cd_onlyAttachments data,
                  autoThread = cd_autoThread data,
                  hallOfFameChannelId = cd_hallOfFameChannelId data,
                  threshold = cd_threshold data \<rparr>]
         \<and> filter (\<lambda>c. guildId c \<noteq> g) configs' = filter (\<lambda>c. guildId c \<noteq> g) configs
         \<and> warnings_file fsys' = warnings_file fsys"
proof -
  let ?new = "filter (\<lambda>c. guildId c \<noteq> g) configs @ [with_guildId g data]"
  from saveConfig_array [OF assms, of g data] obtain d where
    d: "fsys = Some d"
    and sv: "saveConfig g data fsys = (Some (d\<lparr>starboard_json := Some (JsonArray ?new)\<rparr>), Returned)"
    by blast
  have g: "guildId (with_guildId g data) = g" by (simp add: with_guildId_def)
  have one: "filter (\<lambda>c. guildId c = g) ?new
      = [\<lparr> guildId = g,
           channelIds = cd_channelIds data,
           emoji = cd_emoji data,
           onlyAttachments = cd_onlyAttachments data,
           autoThread = cd_autoThread data,
           hallOfFameChannelId = cd_hallOfFameChannelId data,
           threshold = cd_threshold data \<rparr>]"
    using g by (simp add: filter_empty_conv with_guildId_def)
  have others: "filter (\<lambda>c. guildId c \<noteq> g) ?new = filter (\<lambda>c. guildId c \<noteq> g) configs"
    using g by simp
  show ?thesis
    using sv one others d
    by (intro exI [of _ "Some (d\<lparr>starboard_json := Some (JsonArray ?new)\<rparr>)"] exI [of _ ?new])
       (simp add: starboard_file_def warnings_file_def)
qed

text \<open>
  What \<open>/starboard\<close> hands to \<open>saveConfig\<close>, and so what the saved record holds: the
  valid channel ids, the emoji, the two flags (false when the option is not given), the
  Hall-of-Fame channel and the threshold of the invocation.
\<close>

lemma starboard_execute_saves:
  assumes "starboard_file fsys = Some (JsonArray configs)" and "validChannelIds_of i \<noteq> []"
  shows "starboard_file (fst (snd (starboard_execute i fsys)))
           = Some (JsonArray (filter (\<lambda>c. guildId c \<noteq> si_guildId i) configs
               @ [\<lparr> guildId = si_guildId i,
                     channelIds = validChannelIds_of i,
                     emoji = si_emoji i,
                     onlyAttachments = (case si_only_attachments i of None \<Rightarrow> False | Some b \<Rightarrow> b),
                     autoThread = (case si_auto_thread i of None \<Rightarrow> False | Some b \<Rightarrow> b),
                     hallOfFameChannelId = si_hall_of_fame i,
                     threshold = si_threshold i \<rparr>]))"
proof -
  from saveConfig_array [OF assms(1), of "si_guildId i" "configData i (validChannelIds_of i)"]
  obtain d where d: "fsys = Some d"
    and sv: "saveConfig (si_guildId i) (configData i (validChannelIds_of i)) fsys
      = (Some (d\<lparr>starboard_json := Some (JsonArray
           (filter (\<lambda>c. guildId c \<noteq> si_guildId i) configs
              @ [with_guildId (si_guildId i) (configData i (validChannelIds_of i))]))\<rparr>),
         Returned)"
    by blast
  show ?thesis
    using assms(2) sv
    by (simp add: starboard_execute_def Let_def starboard_file_def with_guildId_def
          configData_def)
qed

theorem saveConfig_one_record_per_guild_witness:
  "saveConfig ''900000000000000001'' ex_data
     (Some \<lparr>starboard_json = Some (JsonArray [ex_config, ex_other, ex_config]), warnings_json = None\<rparr>)
   = (Some \<lparr>starboard_json =
             Some (JsonArray
               [\<lparr> guildId = ''900000000000000002'',
                   channelIds = [''111111111111111111'', ''222222222222222222''],
                   emoji = ''+'',
                   onlyAttachments = True,
                   autoThread = False,
                   hallOfFameChannelId = Some ''333333333333333333'',
                   threshold = Some 2 \<rparr>,
                \<lparr> guildId = ''900000000000000001'',
                   channelIds = [''222222222222222222''],
                   emoji = ''*'',
                   onlyAttachments = True,
                   autoThread = False,
                   hallOfFameChannelId = Some ''333333333333333333'',
                   threshold = Some 2 \<rparr>]),
           warnings_json = None\<rparr>, Returned)"
proof -
  let ?fsys = "Some \<lparr>starboard_json = Some (JsonArray [ex_config, ex_other, ex_config]),
                     warnings_json = None\<rparr>"
  have h: "starboard_file ?fsys = Some (JsonArray [ex_config, ex_other, ex_config])"
    by (simp add: starboard_file_def)
  from saveConfig_one_record_per_guild [OF h, of "''900000000000000001''" ex_data]
  obtain fsys' configs' where
    sv: "saveConfig ''900000000000000001'' ex_data ?fsys = (fsys', Returned)"
    and f: "starboard_file fsys' = Some (JsonArray configs')"
    and o: "filter (\<lambda>c. guildId c = ''900000000000000001'') configs'
             = [\<lparr> guildId = ''900000000000000001'',
                  channelIds = cd_channelIds ex_data,
                  emoji = cd_emoji ex_data,
                  onlyAttachments = cd_onlyAttachments ex_data,
                  autoThread = cd_autoThread ex_data,
                  hallOfFameChannelId = cd_hallOfFameChannelId ex_data,
                  threshold = cd_threshold ex_data \<rparr>]"
    and r: "filter (\<lambda>c. guildId c \<noteq> ''900000000000000001'') configs'
             = filter (\<lambda>c. guildId c \<noteq> ''900000000000000001'') [ex_config, ex_other, ex_config]"
    and w: "warnings_file fsys' = warnings_file ?fsys"
    by blast
  have eval: "saveConfig ''900000000000000001'' ex_data ?fsys
     = (Some \<lparr>starboard_json =
             Some (JsonArray
               [\<lparr> guildId = ''900000000000000002'',
                   channelIds = [''111111111111111111'', ''222222222222222222''],
                   emoji = ''+'',
                   onlyAttachments = True,
                   autoThread = False,
                   hallOfFameChannelId = Some ''333333333333333333'',
                   threshold = Some 2 \<rparr>,
                \<lparr> guildId = ''900000000000000001'',
                   channelIds = [''222222222222222222''],
                   emoji = ''*'',
                   onlyAttachments = True,
                   autoThread = False,
                   hallOfFameChannelId = Some ''333333333333333333'',
                   threshold = Some 2 \<rparr>]),
           warnings_json = None\<rparr>, Returned)"
    by (simp add: saveConfig_def starboard_file_def writeFileSync_starboard_def
          JSON_stringify_def ex_config_def ex_other_def ex_data_def configData_def
          ex_interaction_def with_guildId_def)
  with sv show ?thesis by simp
qed

section \<open>Properties of the handlers' calls\<close>

lemma reposts_of_append: "reposts_of m (fx @ fx') = reposts_of m fx @ reposts_of m fx'"
  by (simp add: reposts_of_def)

lemma reposts_of_create_thread: "reposts_of m (create_thread c x e ok) = []"
  by (simp add: reposts_of_def create_thread_def)

lemma reposts_of_load: "reposts_of m (fst (loadStarboardConfigs fsys)) = []"
  by (simp add: reposts_of_def loadStarboardConfigs_def split: option.splits sum.splits)

lemma reposts_of_Nil: "reposts_of m [] = []"
  by (simp add: reposts_of_def)

lemma reposts_of_log: "reposts_of m [ConsoleError s] = []"
  by (simp add: reposts_of_def)

lemma reposts_of_Cons:
  "reposts_of m (e # fx) =
     (case e of HofSend _ m' _ \<Rightarrow> if m' = m then e # reposts_of m fx else reposts_of m fx
      | _ \<Rightarrow> reposts_of m fx)"
  by (cases e) (simp_all add: reposts_of_def)

lemma reposts_of_empty_iff: "reposts_of m fx = [] \<longleftrightarrow> (\<forall>c em. HofSend c m em \<notin> set fx)"
proof
  assume a: "reposts_of m fx = []"
  show "\<forall>c em. HofSend c m em \<notin> set fx"
  proof (intro allI notI)
    fix c em
    assume "HofSend c m em \<in> set fx"
    then have "HofSend c m em \<in> set (reposts_of m fx)" by (simp add: reposts_of_def)
    with a show False by simp
  qed
next
  assume a: "\<forall>c em. HofSend c m em \<notin> set fx"
  show "reposts_of m fx = []"
    unfolding reposts_of_def filter_empty_conv
  proof (intro ballI)
    fix e
    assume "e \<in> set fx"
    with a show "\<not> (case e of HofSend _ m' _ \<Rightarrow> m' = m | _ \<Rightarrow> False)"
      by (cases e) auto
  qed
qed

lemma onMessageCreate_frame: "fst (snd (onMessageCreate ev st)) = st"
  by (simp add: onMessageCreate_def Let_def
           split: option.splits prod.splits json_value.splits)

lemma rtl_load: "\<forall>e \<in> set (fst (loadStarboardConfigs fsys)). react_thread_or_log e"
  by (simp add: loadStarboardConfigs_def react_thread_or_log_def split: option.splits sum.splits)

lemma rtl_create_thread: "\<forall>e \<in> set (create_thread c m x ok). react_thread_or_log e"
  by (simp add: create_thread_def react_thread_or_log_def)

lemma onMessageCreate_effects:
  "\<forall>e \<in> set (fst (onMessageCreate ev st)). react_thread_or_log e"
proof -
  obtain logs configs where l: "loadStarboardConfigs (files st) = (logs, configs)"
    by (cases "loadStarboardConfigs (files st)")
  have rl: "\<forall>e \<in> set logs. react_thread_or_log e" using rtl_load [of "files st"] l by simp
  have r: "\<And>m x. react_thread_or_log (React m x)" "\<And>s. react_thread_or_log (ConsoleError s)"
    by (simp_all add: react_thread_or_log_def)
  show ?thesis
    using l rl r rtl_create_thread
    unfolding onMessageCreate_def Let_def
    by (auto split: option.splits json_value.splits)
qed

lemma rtl_no_repost: "\<forall>e \<in> set fx. react_thread_or_log e \<Longrightarrow> reposts_of m fx = []"
  unfolding reposts_of_def filter_empty_conv
proof (intro ballI)
  fix e
  assume a: "\<forall>e \<in> set fx. react_thread_or_log e" and e: "e \<in> set fx"
  then have "react_thread_or_log e" by blast
  then show "\<not> (case e of HofSend _ m' _ \<Rightarrow> m' = m | _ \<Rightarrow> False)"
    by (cases e) (simp_all add: react_thread_or_log_def)
qed

lemma onMessageCreate_result:
  assumes "onMessageCreate ev st = (fx, st', oc)"
  shows "st' = st \<and> reposts_of m fx = []"
  using assms onMessageCreate_frame [of ev st] onMessageCreate_effects [of ev st]
    rtl_no_repost [of fx m] by simp

lemma reposts_of_starboard: "reposts_of m (fst (starboard_execute i fsys)) = []"
  by (simp add: starboard_execute_def Let_def reposts_of_def split: prod.splits outcome.splits)

lemma reposts_of_read_warnings: "reposts_of m (fst (read_warnings fsys)) = []"
  by (simp add: read_warnings_def reposts_of_def split: option.splits file_text.splits)

lemma reposts_of_send_dm: "reposts_of m (send_dm i t) = []"
  by (simp add: send_dm_def reposts_of_Cons reposts_of_Nil)

lemma reposts_of_warn: "reposts_of m (fst (warn_execute i fsys)) = []"
proof -
  obtain logs ws where l: "read_warnings (if fsys = None then mkdirSync_dataDir fsys else fsys) = (logs, ws)"
    by (cases "read_warnings (if fsys = None then mkdirSync_dataDir fsys else fsys)")
  have rl: "reposts_of m logs = []"
    using reposts_of_read_warnings [of m "if fsys = None then mkdirSync_dataDir fsys else fsys"] l
    by simp
  show ?thesis
    using l rl
    unfolding warn_execute_def Let_def
    by (auto simp: reposts_of_append reposts_of_Nil reposts_of_Cons reposts_of_send_dm
             split: option.splits json_value.splits prod.splits outcome.splits
                    interaction_member.splits)
qed

lemma reposts_of_execute: "reposts_of m (fst (execute c fsys)) = []"
proof (cases c)
  case (Starboard i)
  then show ?thesis by (simp add: execute_def reposts_of_starboard)
next
  case (Warn i)
  then show ?thesis by (simp add: execute_def reposts_of_warn)
next
  case (Ping latency)
  then show ?thesis by (simp add: execute_def ping_execute_def reposts_of_Cons reposts_of_Nil)
next
  case NotLoaded
  then show ?thesis by (simp add: execute_def reposts_of_Nil)
qed

lemma onInteractionCreate_result:
  assumes "onInteractionCreate c st = (fx, st', oc)"
  shows "postedToHallOfFame st' = postedToHallOfFame st \<and> reposts_of m fx = []"
proof -
  obtain fx0 fsys' oc0 where e: "execute c (files st) = (fx0, fsys', oc0)"
    by (cases "execute c (files st)")
  have r0: "reposts_of m fx0 = []" using reposts_of_execute [of m c "files st"] e by simp
  have rest: "\<And>r. reposts_of m [Reply r] = []" "\<And>r. reposts_of m [FollowUp r] = []"
    by (simp_all add: reposts_of_def)
  show ?thesis
    using assms e r0 rest
    by (cases oc0) (auto simp: onInteractionCreate_def reposts_of_append reposts_of_log
                        reposts_of_def)
qed

subsection \<open>Overlapping handlers\<close>

lemma after_calls_simps:
  "fst (after_calls fx p) = fx @ fst p" "snd (after_calls fx p) = snd p"
  by (simp_all add: after_calls_def)

lemma hallOfFame_result:
  "fst (snd (hallOfFame ev cfg fullMsg st)) = st
   \<and> (m \<in> postedToHallOfFame st \<longrightarrow> reposts_of m (fst (hallOfFame ev cfg fullMsg st)) = [])"
  by (auto simp: hallOfFame_def Let_def reposts_of_Cons reposts_of_Nil
           split: option.splits prod.splits)

lemma after_thread_result:
  "fst (snd (after_thread ev cfg fullMsg st)) = st
   \<and> (m \<in> postedToHallOfFame st \<longrightarrow> reposts_of m (fst (after_thread ev cfg fullMsg st)) = [])"
  using hallOfFame_result [of ev cfg fullMsg st m]
  by (simp add: after_thread_def after_calls_simps reposts_of_append reposts_of_log
        reposts_of_Nil)

lemma after_full_message_result:
  "fst (snd (after_full_message ev cfg st)) = st
   \<and> (m \<in> postedToHallOfFame st \<longrightarrow> reposts_of m (fst (after_full_message ev cfg st)) = [])"
proof (cases "re_fullMsg ev")
  case None
  then show ?thesis by (simp add: after_full_message_def reposts_of_Nil)
next
  case (Some fullMsg)
  then show ?thesis
    using hallOfFame_result [of ev cfg fullMsg st m]
    by (simp add: after_full_message_def reposts_of_Nil reposts_of_Cons)
qed

lemma check_channel_result:
  "fst (snd (check_channel ev cfg st)) = st \<and> reposts_of m (fst (check_channel ev cfg st)) = []"
  by (simp add: check_channel_def reposts_of_Nil)

lemma check_guild_result:
  "fst (snd (check_guild ev configs st)) = st \<and> reposts_of m (fst (check_guild ev configs st)) = []"
  using check_channel_result [of ev _ st m]
  by (simp add: check_guild_def reposts_of_Nil split: option.splits json_value.splits)

lemma onMessageReactionAdd_result:
  "fst (snd (onMessageReactionAdd ev st)) = st \<and> reposts_of m (fst (onMessageReactionAdd ev st)) = []"
proof -
  obtain logs configs where l: "loadStarboardConfigs (files st) = (logs, configs)"
    by (cases "loadStarboardConfigs (files st)")
  have rl: "reposts_of m logs = []" using reposts_of_load [of m "files st"] l by simp
  show ?thesis
    using l rl check_guild_result [of ev configs st m]
    by (simp add: onMessageReactionAdd_def after_calls_simps reposts_of_append reposts_of_Nil)
qed

text \<open>
  Whatever a waiting handler does when it goes on, the posted set only grows, and a
  message that is in the set at that moment is not sent.
\<close>

lemma resume_result:
  "postedToHallOfFame st \<subseteq> postedToHallOfFame (fst (snd (resume k st)))
   \<and> files (fst (snd (resume k st))) = files st
   \<and> (m \<in> postedToHallOfFame st \<longrightarrow> reposts_of m (fst (resume k st)) = [])"
proof (cases k)
  case (AwaitReactionFetch ev configs)
  then show ?thesis
    using check_guild_result [of ev configs st m]
    by (simp add: resume_def reposts_of_log)
next
  case (AwaitMessageFetch ev cfg)
  then show ?thesis
    using check_channel_result [of ev cfg st m]
    by (simp add: resume_def reposts_of_log)
next
  case (AwaitFullMessage ev cfg)
  then show ?thesis
    using after_full_message_result [of ev cfg st m] by (simp add: resume_def)
next
  case (AwaitThread ev cfg fullMsg)
  then show ?thesis
    using after_thread_result [of ev cfg fullMsg st m] by (simp add: resume_def)
next
  case (AwaitSend ev fullMsg)
  then show ?thesis
    by (auto simp: resume_def after_send_def reposts_of_Nil)
qed

lemma deliver_result:
  "postedToHallOfFame st \<subseteq> postedToHallOfFame (fst (snd (deliver e st)))
   \<and> reposts_of m (fst (deliver e st)) = []"
proof (cases e)
  case (MessageCreate ev)
  obtain fx st' oc where h: "onMessageCreate ev st = (fx, st', oc)"
    by (cases "onMessageCreate ev st")
  from onMessageCreate_result [OF h, of m] MessageCreate h show ?thesis
    by (simp add: deliver_def)
next
  case (MessageReactionAdd ev)
  then show ?thesis
    using onMessageReactionAdd_result [of ev st m] by (simp add: deliver_def)
next
  case (InteractionCreate c)
  obtain fx st' oc where h: "onInteractionCreate c st = (fx, st', oc)"
    by (cases "onInteractionCreate c st")
  from onInteractionCreate_result [OF h, of m] InteractionCreate h show ?thesis
    by (simp add: deliver_def)
qed

lemma exec1_result:
  assumes "exec1 s (st, waiting) = (fx, (st', waiting'))"
  shows "postedToHallOfFame st \<subseteq> postedToHallOfFame st'
       \<and> (m \<in> postedToHallOfFame st \<longrightarrow> reposts_of m fx = [])"
proof (cases s)
  case (Deliver e)
  obtain fx0 st0 s0 where d: "deliver e st = (fx0, st0, s0)" by (cases "deliver e st")
  from assms Deliver d have "fx = fx0 \<and> st' = st0"
    by (cases s0) (simp_all add: exec1_def)
  with deliver_result [of st e m] d show ?thesis by simp
next
  case (Resume n)
  show ?thesis
  proof (cases "n < length waiting")
    case True
    obtain fx0 st0 s0 where r: "resume (waiting ! n) st = (fx0, st0, s0)"
      by (cases "resume (waiting ! n) st")
    from assms Resume True r have "fx = fx0 \<and> st' = st0"
      by (cases s0) (simp_all add: exec1_def)
    with resume_result [of st "waiting ! n" m] r show ?thesis by simp
  next
    case False
    with assms Resume show ?thesis by (simp add: exec1_def reposts_of_Nil)
  qed
qed

lemma exec_keeps_posted:
  "m \<in> postedToHallOfFame (fst p) \<Longrightarrow>
     reposts_of m (fst (exec steps p)) = [] \<and> m \<in> postedToHallOfFame (fst (snd (exec steps p)))"
proof (induction steps arbitrary: p)
  case Nil
  then show ?case by (simp add: reposts_of_Nil)
next
  case (Cons s steps)
  obtain st waiting where p: "p = (st, waiting)" by (cases p)
  obtain fx st' waiting' where h: "exec1 s (st, waiting) = (fx, (st', waiting'))"
    by (cases "exec1 s (st, waiting)") auto
  from exec1_result [OF h, of m] Cons.prems p
  have m': "m \<in> postedToHallOfFame (fst (st', waiting'))" and q: "reposts_of m fx = []" by auto
  obtain fx' p'' where r: "exec steps (st', waiting') = (fx', p'')"
    by (cases "exec steps (st', waiting')")
  from Cons.IH [OF m'] show ?case
    using h q r p by (simp add: reposts_of_append)
qed

lemma exec_append:
  "exec (steps1 @ steps2) p =
     (fst (exec steps1 p) @ fst (exec steps2 (snd (exec steps1 p))),
      snd (exec steps2 (snd (exec steps1 p))))"
  by (induction steps1 arbitrary: p) (auto split: prod.splits)

text \<open>
  Claim C1. Take the process at any moment of any run: events delivered and waiting
  handlers resumed in any order, the handlers overlapping at their \<open>await\<close>s in any
  way (\<open>steps1\<close>). When the id of a message is in the posted set at that moment, then
  whatever follows (\<open>steps2\<close>: further events of any kind, reaction-add events with any
  count among them, and waiting handlers going on, in any order) makes no call that
  sends this message to a Hall-of-Fame channel, and the id is still in the set at the
  end. The calls of the whole run are the calls up to that moment followed by the calls
  after it.
\<close>

theorem posted_message_never_reposted:
  assumes "m \<in> postedToHallOfFame (fst (snd (exec steps1 p0)))"
  shows "HofSend c m em \<notin> set (fst (exec steps2 (snd (exec steps1 p0))))
       \<and> fst (exec (steps1 @ steps2) p0)
           = fst (exec steps1 p0) @ fst (exec steps2 (snd (exec steps1 p0)))
       \<and> m \<in> postedToHallOfFame (fst (snd (exec (steps1 @ steps2) p0)))"
proof -
  from exec_keeps_posted [OF assms, of steps2]
  have q: "reposts_of m (fst (exec steps2 (snd (exec steps1 p0)))) = []"
    and k: "m \<in> postedToHallOfFame (fst (snd (exec steps2 (snd (exec steps1 p0)))))"
    by simp_all
  from q have "HofSend c m em \<notin> set (fst (exec steps2 (snd (exec steps1 p0))))"
    by (simp add: reposts_of_empty_iff)
  then show ?thesis using k by (simp add: exec_append)
qed

theorem posted_message_never_reposted_witness:
  "''444444444444444444''
     \<in> postedToHallOfFame (fst (snd (exec
          [Deliver (MessageReactionAdd ex_reaction),
           Deliver (MessageReactionAdd (ex_reaction\<lparr>re_count := Some 3\<rparr>)),
           Resume 0, Resume 0] (start ex_files, []))))
   \<and> HofSend ''333333333333333333'' ''444444444444444444''
         (build_embed ex_config 3 ex_message ex_author)
       \<notin> set (fst (exec [Resume 0] (snd (exec
          [Deliver (MessageReactionAdd ex_reaction),
           Deliver (MessageReactionAdd (ex_reaction\<lparr>re_count := Some 3\<rparr>)),
           Resume 0, Resume 0] (start ex_files, [])))))
   \<and> length (snd (snd (exec
          [Deliver (MessageReactionAdd ex_reaction),
           Deliver (MessageReactionAdd (ex_reaction\<lparr>re_count := Some 3\<rparr>)),
           Resume 0, Resume 0] (start ex_files, [])))) = 1"
proof -
  let ?before = "[Deliver (MessageReactionAdd ex_reaction),
           Deliver (MessageReactionAdd (ex_reaction\<lparr>re_count := Some 3\<rparr>)),
           Resume 0, Resume 0]"
  have h: "''444444444444444444''
     \<in> postedToHallOfFame (fst (snd (exec ?before (start ex_files, []))))"
    by code_simp
  have w: "length (snd (snd (exec ?before (start ex_files, [])))) = 1"
    by code_simp
  from posted_message_never_reposted [OF h,
      of "''333333333333333333''" "build_embed ex_config 3 ex_message ex_author" "[Resume 0]"]
  show ?thesis using h w by blast
qed

text \<open>
  Two reaction events on one message, both handlers past the look into the set before
  either send has resolved: the message is sent twice. Both sends are made before the
  id is in the set.
\<close>

lemma overlapping_handlers_send_twice:
  "length (reposts_of ''444444444444444444'' (fst (exec
     [Deliver (MessageReactionAdd ex_reaction), Deliver (MessageReactionAdd ex_reaction),
      Resume 0, Resume 1, Resume 0, Resume 0] (start ex_files, [])))) = 2"
  by code_simp

subsection \<open>The schedule without overlap\<close>

declare finish.simps [simp del]

lemma finish_shift:
  "\<forall>fx'. finish (fx', fst (snd (r :: progress)), snd (snd r))
     = (fx' @ fst (finish ([], fst (snd r), snd (snd r))),
        snd (finish ([], fst (snd r), snd (snd r))))"
proof (induction r rule: finish.induct)
  case (1 fx st oc)
  show ?case unfolding fst_conv snd_conv finish.simps(1) append_Nil2 by (rule allI) (rule refl)
next
  case (2 fx st k)
  let ?f = "fst (resume k st)" and ?st = "fst (snd (resume k st))"
    and ?s = "snd (snd (resume k st))"
  note ih = 2 [unfolded fst_conv snd_conv, rule_format]
  have e0: "finish ([], st, Await k) = (?f @ fst (finish ([], ?st, ?s)), snd (finish ([], ?st, ?s)))"
    unfolding finish.simps(2) [of "[]" st k] append_Nil by (rule ih)
  have step: "\<And>fx'. finish (fx', st, Await k)
          = (fx' @ fst (finish ([], st, Await k)), snd (finish ([], st, Await k)))"
  proof -
    fix fx'
    have "finish (fx', st, Await k) = finish (fx' @ ?f, ?st, ?s)"
      by (rule finish.simps(2))
    also have "\<dots> = ((fx' @ ?f) @ fst (finish ([], ?st, ?s)), snd (finish ([], ?st, ?s)))"
      by (rule ih)
    also have "\<dots> = (fx' @ fst (finish ([], st, Await k)), snd (finish ([], st, Await k)))"
      unfolding e0 fst_conv snd_conv append_assoc by (rule refl)
    finally show "finish (fx', st, Await k)
          = (fx' @ fst (finish ([], st, Await k)), snd (finish ([], st, Await k)))" .
  qed
  show ?case unfolding fst_conv snd_conv by (rule allI) (rule step)
qed

lemma finish_append:
  "finish (fx, st, s) = (fx @ fst (finish ([], st, s)), snd (finish ([], st, s)))"
  by (rule finish_shift [of "(fx, st, s)", unfolded fst_conv snd_conv, rule_format])

text \<open>
  Running a handler to its end is one way the process can go: the handler that waits
  last in the list is resumed until it is done.
\<close>

lemma finish_is_schedule:
  "\<forall>waiting. \<exists>steps.
     exec steps (fst (snd (r :: progress)),
         waiting @ (case snd (snd r) of Done _ \<Rightarrow> [] | Await k \<Rightarrow> [k]))
       = (fst (finish ([], fst (snd r), snd (snd r))),
          (fst (snd (finish ([], fst (snd r), snd (snd r)))), waiting))"
proof (induction r rule: finish.induct)
  case (1 fx st oc)
  have "\<And>waiting. exec [] (st, waiting)
          = (fst (finish ([], st, Done oc)), (fst (snd (finish ([], st, Done oc))), waiting))"
    by (simp add: finish.simps(1))
  then show ?case by (simp only: fst_conv snd_conv status.case append_Nil2) blast
next
  case (2 fx st k)
  obtain f st' s where r: "resume k st = (f, st', s)" by (cases "resume k st")
  have "\<And>waiting. \<exists>steps. exec steps (st, waiting @ [k])
          = (fst (finish ([], st, Await k)), (fst (snd (finish ([], st, Await k))), waiting))"
  proof -
    fix waiting
    from 2 r obtain steps where
      ih: "exec steps (st', waiting @ (case s of Done _ \<Rightarrow> [] | Await k' \<Rightarrow> [k']))
             = (fst (finish ([], st', s)), (fst (snd (finish ([], st', s))), waiting))"
      by (simp only: fst_conv snd_conv) blast
    have one: "exec1 (Resume (length waiting)) (st, waiting @ [k])
                 = (f, (st', waiting @ (case s of Done _ \<Rightarrow> [] | Await k' \<Rightarrow> [k'])))"
      using r by (cases s) (simp_all add: exec1_def)
    have fin: "finish ([], st, Await k) = (f @ fst (finish ([], st', s)), snd (finish ([], st', s)))"
      using finish.simps(2) [of "[]" st k] finish_append [of f st' s] r by simp
    have "exec (Resume (length waiting) # steps) (st, waiting @ [k])
            = (fst (finish ([], st, Await k)), (fst (snd (finish ([], st, Await k))), waiting))"
      using one ih fin by simp
    then show "\<exists>steps. exec steps (st, waiting @ [k])
          = (fst (finish ([], st, Await k)), (fst (snd (finish ([], st, Await k))), waiting))"
      by blast
  qed
  then show ?case by (simp only: fst_conv snd_conv status.case) blast
qed

lemma handle_is_schedule:
  "\<exists>steps. exec steps (st, waiting) = (fst (handle e st), (fst (snd (handle e st)), waiting))"
proof -
  obtain fx st' s where d: "deliver e st = (fx, st', s)" by (cases "deliver e st")
  from finish_is_schedule [of "(fx, st', s)"] obtain steps where
    f: "exec steps (st', waiting @ (case s of Done _ \<Rightarrow> [] | Await k \<Rightarrow> [k]))
          = (fst (finish ([], st', s)), (fst (snd (finish ([], st', s))), waiting))"
    by (simp only: fst_conv snd_conv) blast
  have one: "exec1 (Deliver e) (st, waiting)
               = (fx, (st', waiting @ (case s of Done _ \<Rightarrow> [] | Await k \<Rightarrow> [k])))"
    using d by (cases s) (simp_all add: exec1_def)
  have h: "handle e st = (fx @ fst (finish ([], st', s)), snd (finish ([], st', s)))"
    using d finish_append [of fx st' s] by (simp add: handle_def)
  have "exec (Deliver e # steps) (st, waiting)
          = (fst (handle e st), (fst (snd (handle e st)), waiting))"
    using one f h by simp
  then show ?thesis by blast
qed

lemma run_is_schedule:
  "\<exists>steps. exec steps (st, waiting) = (fst (run es st), (snd (run es st), waiting))"
proof (induction es arbitrary: st)
  case Nil
  have "exec [] (st, waiting) = (fst (run [] st), (snd (run [] st), waiting))" by simp
  then show ?case by blast
next
  case (Cons e es)
  obtain fx st' oc where h: "handle e st = (fx, st', oc)" by (cases "handle e st")
  from handle_is_schedule [of st waiting e] h obtain steps1 where
    s1: "exec steps1 (st, waiting) = (fx, (st', waiting))" by auto
  from Cons.IH [of st'] obtain steps2 where
    s2: "exec steps2 (st', waiting) = (fst (run es st'), (snd (run es st'), waiting))" by blast
  have "exec (steps1 @ steps2) (st, waiting)
          = (fst (run (e # es) st), (snd (run (e # es) st), waiting))"
    using s1 s2 h by (simp add: exec_append split: prod.splits)
  then show ?case by blast
qed

subsection \<open>The message-create handler\<close>

lemma handle_MessageCreate: "handle (MessageCreate ev) st = onMessageCreate ev st"
  by (cases "onMessageCreate ev st") (simp add: handle_def deliver_def finish.simps(1))

lemma onMessageCreate_skips:
  assumes "starboard_file (files st) = Some (JsonArray configs)"
    and "find (\<lambda>c. Some (guildId c) = msg_guildId (me_message ev)) configs = Some cfg"
    and "onlyAttachments cfg"
    and "msg_attachments (me_message ev) = []"
  shows "fst (onMessageCreate ev st) = []"
  using assms
  by (simp add: onMessageCreate_def loadStarboardConfigs_def Let_def split: option.splits)

text \<open>
  Claim C5. When the config file holds an array whose record for the message's guild has
  \<open>onlyAttachments\<close> set, and the message has no attachment, the message-create handler
  makes no call at all: no reaction is applied, to this message or any other.
\<close>

theorem attachments_only_no_reaction:
  assumes "starboard_file (files st) = Some (JsonArray configs)"
    and "find (\<lambda>c. Some (guildId c) = msg_guildId (me_message ev)) configs = Some cfg"
    and "onlyAttachments cfg"
    and "msg_attachments (me_message ev) = []"
  shows "React m e \<notin> set (fst (onMessageCreate ev st)) \<and> fst (onMessageCreate ev st) = []"
  using onMessageCreate_skips [OF assms] by simp

theorem attachments_only_no_reaction_witness:
  "React ''444444444444444444'' ''*''
     \<notin> set (fst (onMessageCreate
                    (ex_message_event\<lparr>me_message := ex_message\<lparr>msg_attachments := []\<rparr>\<rparr>)
                    (start ex_files)))
   \<and> React ''444444444444444444'' ''*''
     \<in> set (fst (onMessageCreate ex_message_event (start ex_files)))"
proof -
  let ?ev = "ex_message_event\<lparr>me_message := ex_message\<lparr>msg_attachments := []\<rparr>\<rparr>"
  have a: "starboard_file (files (start ex_files)) = Some (JsonArray [ex_config])"
    by (simp add: start_def ex_files_def starboard_file_def)
  have b: "find (\<lambda>c. Some (guildId c) = msg_guildId (me_message ?ev)) [ex_config] = Some ex_config"
    by (simp add: ex_message_event_def ex_message_def ex_config_def)
  have c: "onlyAttachments ex_config" by (simp add: ex_config_def)
  have d: "msg_attachments (me_message ?ev) = []" by (simp add: ex_message_event_def)
  have e: "React ''444444444444444444'' ''*''
     \<in> set (fst (onMessageCreate ex_message_event (start ex_files)))"
    by code_simp
  from attachments_only_no_reaction [OF a b c d, of "''444444444444444444''" "''*''"] e
  show ?thesis by simp
qed

text \<open>
  Claim C10. The message-create handler hands back the state it was given: the config
  file, the warnings file and the posted set are what they were. Every call it makes is
  a reaction, a thread creation or a log line.
\<close>

theorem message_create_frame:
  "files (fst (snd (onMessageCreate ev st))) = files st
   \<and> postedToHallOfFame (fst (snd (onMessageCreate ev st))) = postedToHallOfFame st
   \<and> fst (snd (onMessageCreate ev st)) = st
   \<and> (\<forall>e \<in> set (fst (onMessageCreate ev st)). react_thread_or_log e)"
  using onMessageCreate_frame [of ev st] onMessageCreate_effects [of ev st] by simp

theorem message_create_frame_witness:
  "fst (snd (onMessageCreate (ex_message_event\<lparr>me_reactOk := False\<rparr>) (start ex_files)))
     = start ex_files
   \<and> fst (onMessageCreate (ex_message_event\<lparr>me_reactOk := False\<rparr>) (start ex_files))
     = [React ''444444444444444444'' ''*'', ConsoleError ''Starboard reaction failed'']
   \<and> react_thread_or_log (React ''444444444444444444'' ''*'')
   \<and> react_thread_or_log (ConsoleError ''Starboard reaction failed'')"
proof -
  have fx: "fst (onMessageCreate (ex_message_event\<lparr>me_reactOk := False\<rparr>) (start ex_files))
     = [React ''444444444444444444'' ''*'', ConsoleError ''Starboard reaction failed'']"
    by code_simp
  from message_create_frame [of "ex_message_event\<lparr>me_reactOk := False\<rparr>" "start ex_files"]
  show ?thesis unfolding fx by simp
qed

lemma reacts_on_Cons:
  "reacts_on m (e # fx) =
     (case e of React m' _ \<Rightarrow> if m' = m then e # reacts_on m fx else reacts_on m fx
      | _ \<Rightarrow> reacts_on m fx)"
  by (cases e) (simp_all add: reacts_on_def)

lemma reacts_on_append: "reacts_on m (fx @ fx') = reacts_on m fx @ reacts_on m fx'"
  by (simp add: reacts_on_def)

lemma reacts_on_Nil: "reacts_on m [] = []"
  by (simp add: reacts_on_def)

lemma reacts_on_create_thread: "reacts_on m (create_thread c x e ok) = []"
  by (simp add: create_thread_def reacts_on_Cons reacts_on_Nil)

lemma onMessageCreate_qualifying:
  assumes "msg_author (me_message ev) = Some a" "\<not> u_bot a" "msg_guild (me_message ev) \<noteq> None"
    and "starboard_file (files st) = Some (JsonArray configs)"
    and "find (\<lambda>c. Some (guildId c) = msg_guildId (me_message ev)) configs = Some cfg"
    and "msg_channelId (me_message ev) \<in> set (channelIds cfg)"
    and "\<not> (onlyAttachments cfg \<and> msg_attachments (me_message ev) = [])"
  shows "reacts_on (msg_id (me_message ev)) (fst (onMessageCreate ev st))
           = [React (msg_id (me_message ev)) (emoji cfg)]"
  using assms
  by (auto simp: onMessageCreate_def loadStarboardConfigs_def Let_def reacts_on_Cons
        reacts_on_append reacts_on_Nil reacts_on_create_thread)

lemma run_redelivery:
  "run (replicate n (MessageCreate ev)) st
     = (concat (replicate n (fst (onMessageCreate ev st))), st)"
proof (induction n)
  case 0
  show ?case by simp
next
  case (Suc n)
  obtain fx st' oc where h: "onMessageCreate ev st = (fx, st', oc)"
    by (cases "onMessageCreate ev st")
  with onMessageCreate_frame [of ev st] have "st' = st" by simp
  with h Suc show ?case by (simp add: handle_MessageCreate)
qed

lemma reacts_on_concat_replicate:
  "reacts_on m (concat (replicate n fx)) = concat (replicate n (reacts_on m fx))"
  by (induction n) (simp_all add: reacts_on_Nil reacts_on_append)

text \<open>
  Claim C8, as amended. For a message that qualifies (its author is not a bot, it is in
  a guild whose record monitors its channel, and the attachments rule lets it through),
  one delivery of the message-create event makes exactly one reaction call on it. The
  handler keeps no trace of the messages it has reacted to: \<open>n\<close> deliveries of the same
  event make \<open>n\<close> reaction calls.
\<close>

theorem one_reaction_per_delivery:
  assumes "msg_author (me_message ev) = Some a" "\<not> u_bot a" "msg_guild (me_message ev) \<noteq> None"
    and "starboard_file (files st) = Some (JsonArray configs)"
    and "find (\<lambda>c. Some (guildId c) = msg_guildId (me_message ev)) configs = Some cfg"
    and "msg_channelId (me_message ev) \<in> set (channelIds cfg)"
    and "\<not> (onlyAttachments cfg \<and> msg_attachments (me_message ev) = [])"
  shows "reacts_on (msg_id (me_message ev)) (fst (onMessageCreate ev st))
           = [React (msg_id (me_message ev)) (emoji cfg)]
       \<and> reacts_on (msg_id (me_message ev)) (fst (run (replicate n (MessageCreate ev)) st))
           = replicate n (React (msg_id (me_message ev)) (emoji cfg))"
proof -
  note one = onMessageCreate_qualifying [OF assms]
  have "concat (replicate n [React (msg_id (me_message ev)) (emoji cfg)])
          = replicate n (React (msg_id (me_message ev)) (emoji cfg))"
    by (induction n) simp_all
  then show ?thesis
    using one by (simp add: run_redelivery reacts_on_concat_replicate)
qed

theorem one_reaction_per_delivery_witness:
  "reacts_on ''444444444444444444'' (fst (onMessageCreate ex_message_event (start ex_files)))
     = [React ''444444444444444444'' ''*'']
   \<and> reacts_on ''444444444444444444''
        (fst (run (replicate 3 (MessageCreate ex_message_event)) (start ex_files)))
     = replicate 3 (React ''444444444444444444'' ''*'')"
proof -
  have a: "msg_author (me_message ex_message_event) = Some ex_author"
    and b: "\<not> u_bot ex_author"
    and c: "msg_guild (me_message ex_message_event) \<noteq> None"
    and d: "starboard_file (files (start ex_files)) = Some (JsonArray [ex_config])"
    and e: "find (\<lambda>c. Some (guildId c) = msg_guildId (me_message ex_message_event)) [ex_config]
              = Some ex_config"
    and f: "msg_channelId (me_message ex_message_event) \<in> set (channelIds ex_config)"
    and g: "\<not> (onlyAttachments ex_config \<and> msg_attachments (me_message ex_message_event) = [])"
    by (simp_all add: ex_defs start_def starboard_file_def)
  from one_reaction_per_delivery [OF a b c d e f g, of 3]
  show ?thesis by (simp add: ex_message_event_def ex_message_def ex_config_def)
qed

text \<open>
  Claim C8 as stated, at the same message-create event delivered twice: the reaction
  call is made twice on the one message.
\<close>

theorem redelivery_reacts_again:
  "reacts_on ''444444444444444444''
     (fst (run [MessageCreate ex_message_event, MessageCreate ex_message_event] (start ex_files)))
   = [React ''444444444444444444'' ''*'', React ''444444444444444444'' ''*'']"
  by code_simp

section \<open>Properties of /warn\<close>

lemma has_Staff_role_iff: "has_Staff_role staff \<longleftrightarrow> ''Staff'' \<in> set (gm_roles staff)"
  by (auto simp: has_Staff_role_def list_ex_iff)






lemma read_warnings_mkdir:
  "snd (read_warnings (if fsys = None then mkdirSync_dataDir fsys else fsys))
     = snd (read_warnings fsys)"
  by (simp add: read_warnings_def mkdirSync_dataDir_def warnings_file_def)

text \<open>
  An accepted \<open>/warn\<close> writes the array it read followed by its record, whatever
  happens to the direct message and the reply afterwards; it returns normally when the
  builder takes the fields of the public embed, and throws otherwise.
\<close>

lemma warn_execute_accepted:
  assumes staff: "wi_staff i = CachedMember s" "''Staff'' \<in> set (gm_roles s)"
    and target: "wi_target i = Some t" "\<not> gm_bot t"
    and old: "snd (read_warnings fsys) = JArr ws"
  shows "warnings_file (fst (snd (warn_execute i fsys)))
           = Some (JsonArray (ws @ [new_warning i s t]))
       \<and> snd (snd (warn_execute i fsys))
           = (if reply_embed_ok i s t then Returned else Threw ValidationError)"
proof -
  let ?f1 = "if fsys = None then mkdirSync_dataDir fsys else fsys"
  obtain logs where r: "read_warnings ?f1 = (logs, JArr ws)"
    using read_warnings_mkdir [of fsys] old by (cases "read_warnings ?f1") simp
  obtain d where d: "?f1 = Some d" by (cases fsys) (simp_all add: mkdirSync_dataDir_def)
  have w: "writeFileSync_warnings (ws @ [new_warning i s t]) ?f1
             = (Some (d\<lparr>warnings_json := Some (JsonArray (ws @ [new_warning i s t]))\<rparr>), Returned)"
    unfolding d by (simp add: writeFileSync_warnings_def JSON_stringify_def)
  show ?thesis
    using staff target r w
    by (simp add: warn_execute_def has_Staff_role_iff Let_def warnings_file_def)
qed

subsection \<open>The text written and read back\<close>

lemma hex_value_hex_digit: "d < 16 \<Longrightarrow> hex_value (hex_digit d) = Some d"
  by (auto simp: hex_value_def hex_digit_def)

lemma hex4_escape: "u < 32 \<Longrightarrow> hex4 48 48 (hex_digit (u div 16)) (hex_digit (u mod 16)) = Some u"
proof -
  assume u: "u < 32"
  then have "u div 16 < 16" by simp
  then have a: "hex_value (hex_digit (u div 16)) = Some (u div 16)"
    by (rule hex_value_hex_digit)
  have b: "hex_value (hex_digit (u mod 16)) = Some (u mod 16)"
    by (rule hex_value_hex_digit) simp
  have z: "hex_value 48 = Some 0" by (simp add: hex_value_def)
  show ?thesis by (simp add: hex4_def a b z)
qed

declare parse_chars.simps(2) [simp del]

lemma parse_chars_literal:
  "u \<noteq> 34 \<Longrightarrow> u \<noteq> 92 \<Longrightarrow> \<not> u < 32 \<Longrightarrow> parse_chars (u # us) = cons_fst u (parse_chars us)"
  by (simp add: parse_chars.simps(2))

lemma parse_chars_short:
  "unescape e = Some n \<Longrightarrow> e \<noteq> 117 \<Longrightarrow> parse_chars (92 # e # us) = cons_fst n (parse_chars us)"
  by (simp add: parse_chars.simps(2))

lemma parse_chars_hex:
  "hex4 a b c d = Some n \<Longrightarrow> parse_chars (92 # 117 # a # b # c # d # us) = cons_fst n (parse_chars us)"
  by (simp add: parse_chars.simps(2))

lemma parse_chars_close: "parse_chars (34 # us) = Some ([], us)"
  by (simp add: parse_chars.simps(2))

text \<open>Reading back what \<open>escape_unit\<close> wrote gives the code unit.\<close>

lemma parse_chars_escape_unit:
  "parse_chars (escape_unit u @ rest) = cons_fst u (parse_chars rest)"
proof -
  consider "u = 8" | "u = 9" | "u = 10" | "u = 12" | "u = 13" | "u = 34" | "u = 92"
    | "u < 32" "u \<noteq> 8" "u \<noteq> 9" "u \<noteq> 10" "u \<noteq> 12" "u \<noteq> 13"
    | "\<not> u < 32" "u \<noteq> 34" "u \<noteq> 92"
    by linarith
  then show ?thesis
  proof cases
    case 1
    then show ?thesis by (simp add: escape_unit_def parse_chars_short unescape_def)
  next
    case 2
    then show ?thesis by (simp add: escape_unit_def parse_chars_short unescape_def)
  next
    case 3
    then show ?thesis by (simp add: escape_unit_def parse_chars_short unescape_def)
  next
    case 4
    then show ?thesis by (simp add: escape_unit_def parse_chars_short unescape_def)
  next
    case 5
    then show ?thesis by (simp add: escape_unit_def parse_chars_short unescape_def)
  next
    case 6
    then show ?thesis by (simp add: escape_unit_def parse_chars_short unescape_def)
  next
    case 7
    then show ?thesis by (simp add: escape_unit_def parse_chars_short unescape_def)
  next
    case 8
    then have "escape_unit u = [92, 117, 48, 48, hex_digit (u div 16), hex_digit (u mod 16)]"
      by (simp add: escape_unit_def)
    then show ?thesis using 8(1) by (simp add: parse_chars_hex hex4_escape)
  next
    case 9
    then have "escape_unit u = [u]" by (simp add: escape_unit_def)
    then show ?thesis using 9 by (simp add: parse_chars_literal)
  qed
qed

lemma parse_chars_escaped:
  "parse_chars (concat (map escape_unit s) @ 34 # rest) = Some (s, rest)"
proof (induction s)
  case Nil
  show ?case by (simp add: parse_chars_close)
next
  case (Cons u s)
  have "parse_chars (concat (map escape_unit (u # s)) @ 34 # rest)
          = parse_chars (escape_unit u @ (concat (map escape_unit s) @ 34 # rest))"
    by simp
  also have "\<dots> = cons_fst u (parse_chars (concat (map escape_unit s) @ 34 # rest))"
    by (rule parse_chars_escape_unit)
  also have "\<dots> = Some (u # s, rest)" by (simp add: Cons.IH cons_fst_def)
  finally show ?case .
qed

text \<open>A quoted string is read back as the string.\<close>

lemma parse_chars_quote: "parse_chars (tl (quote s) @ rest) = Some (s, rest)"
  using parse_chars_escaped [of s rest] by (simp add: quote_def)

lemma skip_ws_simps:
  "skip_ws [] = []"
  "skip_ws (32 # s) = skip_ws s"
  "skip_ws (10 # s) = skip_ws s"
  "\<not> is_ws u \<Longrightarrow> skip_ws (u # s) = u # s"
  by (simp_all add: skip_ws_def is_ws_def)

lemma not_ws: "\<not> is_ws 34" "\<not> is_ws 58" "\<not> is_ws 44" "\<not> is_ws 93" "\<not> is_ws 123" "\<not> is_ws 125"
  "\<not> is_ws 91"
  by (simp_all add: is_ws_def)

lemma skip_ws_idem: "skip_ws (skip_ws s) = skip_ws s"
  by (simp add: skip_ws_def)

lemma parse_value_skip_ws: "parse_value n (skip_ws s) = parse_value n s"
  by (cases n) (simp_all add: skip_ws_idem parse_value.simps)

lemma parse_elements_skip_ws: "parse_elements n (skip_ws s) = parse_elements n s"
  by (cases n) (simp_all add: parse_value_skip_ws parse_elements.simps)

declare parse_value.simps [simp del] parse_elements.simps [simp del] parse_members.simps [simp del]

lemma units_Nil: "units [] = []" and units_Cons: "units (c # cs) = of_char c # units cs"
  by (simp_all add: units_def)

lemma quote_Cons: "quote s = 34 # tl (quote s)"
  by (simp add: quote_def)

text \<open>A string value is read back.\<close>

lemma parse_value_string:
  "parse_value (Suc n) (32 # quote s @ rest) = Some (JString s, rest)"
proof -
  have "skip_ws (32 # quote s @ rest) = 34 # tl (quote s) @ rest"
    by (simp add: skip_ws_simps not_ws quote_def)
  then show ?thesis by (simp add: parse_chars_quote parse_value.simps)
qed

text \<open>A member that is followed by a comma, and the last member of an object.\<close>

lemma member_text_eq:
  "member_text k v @ rest
     = 32 # 32 # 32 # 32 # 34 # tl (quote (units k)) @ 58 # 32 # quote (units v) @ rest"
  by (simp add: member_text_def units_Cons units_Nil quote_def)

lemma parse_members_comma:
  "parse_members (Suc (Suc n)) acc (member_text k v @ 44 # rest)
     = parse_members (Suc n) (put (units k) (JString (units v)) acc) rest"
proof -
  have s1: "skip_ws (member_text k v @ 44 # rest)
      = 34 # tl (quote (units k)) @ (58 # 32 # quote (units v) @ 44 # rest)"
    unfolding member_text_eq by (simp add: skip_ws_simps not_ws)
  have s2: "parse_chars (tl (quote (units k)) @ (58 # 32 # quote (units v) @ 44 # rest))
      = Some (units k, 58 # 32 # quote (units v) @ 44 # rest)"
    by (rule parse_chars_quote)
  have s3: "parse_value (Suc n) (32 # quote (units v) @ 44 # rest)
      = Some (JString (units v), 44 # rest)"
    by (rule parse_value_string)
  show ?thesis
    unfolding parse_members.simps s1
    by (simp only: s2 s3 list.case option.case prod.case skip_ws_simps(4) [OF not_ws(2)]
          skip_ws_simps(4) [OF not_ws(3)] simp_thms if_True if_False)
qed

lemma parse_members_last:
  "parse_members (Suc (Suc n)) acc (member_text k v @ 10 # 32 # 32 # 125 # rest)
     = Some (put (units k) (JString (units v)) acc, rest)"
proof -
  have s1: "skip_ws (member_text k v @ 10 # 32 # 32 # 125 # rest)
      = 34 # tl (quote (units k)) @ (58 # 32 # quote (units v) @ 10 # 32 # 32 # 125 # rest)"
    unfolding member_text_eq by (simp add: skip_ws_simps not_ws)
  have s2: "parse_chars (tl (quote (units k)) @ (58 # 32 # quote (units v) @ 10 # 32 # 32 # 125 # rest))
      = Some (units k, 58 # 32 # quote (units v) @ 10 # 32 # 32 # 125 # rest)"
    by (rule parse_chars_quote)
  have s3: "parse_value (Suc n) (32 # quote (units v) @ 10 # 32 # 32 # 125 # rest)
      = Some (JString (units v), 10 # 32 # 32 # 125 # rest)"
    by (rule parse_value_string)
  have s4: "skip_ws (10 # 32 # 32 # 125 # rest) = 125 # rest"
    by (simp add: skip_ws_simps not_ws)
  show ?thesis
    unfolding parse_members.simps s1
    by (simp only: s2 s3 s4 list.case option.case prod.case skip_ws_simps(4) [OF not_ws(2)]
          simp_thms if_True if_False) simp
qed

lemma parse_members_skip_ws: "parse_members n acc (skip_ws s) = parse_members n acc s"
  by (cases n) (simp_all add: skip_ws_idem parse_members.simps)

lemma parse_members_newline: "parse_members n acc (10 # s) = parse_members n acc s"
  using parse_members_skip_ws [of n acc "10 # s"] parse_members_skip_ws [of n acc s]
  by (simp add: skip_ws_simps)

lemma parse_value_indent: "parse_value n (10 # 32 # 32 # s) = parse_value n (32 # 32 # s)"
  using parse_value_skip_ws [of n "10 # 32 # 32 # s"] parse_value_skip_ws [of n "32 # 32 # s"]
  by (simp add: skip_ws_simps)

lemma warning_text_eq:
  "warning_text w @ rest
     = 32 # 32 # 123 # 10 #
       (member_text ''caseId'' (caseId w) @ 44 # 10 #
       (member_text ''userId'' (userId w) @ 44 # 10 #
       (member_text ''staffId'' (staffId w) @ 44 # 10 #
       (member_text ''reason'' (reason w) @ 44 # 10 #
       (member_text ''timestamp'' (timestamp w) @ 10 # 32 # 32 # 125 # rest)))))"
  by (simp add: warning_text_def units_Cons units_Nil)

lemma keys_differ:
  "units ''caseId'' \<noteq> units ''userId''" "units ''caseId'' \<noteq> units ''staffId''"
  "units ''caseId'' \<noteq> units ''reason''" "units ''caseId'' \<noteq> units ''timestamp''"
  "units ''userId'' \<noteq> units ''staffId''" "units ''userId'' \<noteq> units ''reason''"
  "units ''userId'' \<noteq> units ''timestamp''" "units ''staffId'' \<noteq> units ''reason''"
  "units ''staffId'' \<noteq> units ''timestamp''" "units ''reason'' \<noteq> units ''timestamp''"
  by (simp_all add: units_def)

text \<open>The text of one warning is read back as its object.\<close>

lemma parse_value_warning:
  "parse_value (Suc (Suc (Suc (Suc (Suc (Suc (Suc n))))))) (warning_text w @ rest)
     = Some (warning_object w, rest)"
proof -
  let ?m5 = "member_text ''timestamp'' (timestamp w) @ 10 # 32 # 32 # 125 # rest"
  let ?m4 = "member_text ''reason'' (reason w) @ 44 # 10 # ?m5"
  let ?m3 = "member_text ''staffId'' (staffId w) @ 44 # 10 # ?m4"
  let ?m2 = "member_text ''userId'' (userId w) @ 44 # 10 # ?m3"
  let ?m1 = "member_text ''caseId'' (caseId w) @ 44 # 10 # ?m2"
  let ?a1 = "put (units ''caseId'') (JString (units (caseId w))) []"
  let ?a2 = "put (units ''userId'') (JString (units (userId w))) ?a1"
  let ?a3 = "put (units ''staffId'') (JString (units (staffId w))) ?a2"
  let ?a4 = "put (units ''reason'') (JString (units (reason w))) ?a3"
  let ?a5 = "put (units ''timestamp'') (JString (units (timestamp w))) ?a4"
  have p5: "parse_members (Suc (Suc n)) ?a4 ?m5 = Some (?a5, rest)"
    by (rule parse_members_last)
  have p4: "parse_members (Suc (Suc (Suc n))) ?a3 ?m4 = Some (?a5, rest)"
    using parse_members_comma [of "Suc n" ?a3 "''reason''" "reason w" "10 # ?m5"] p5
    by (simp only: parse_members_newline)
  have p3: "parse_members (Suc (Suc (Suc (Suc n)))) ?a2 ?m3 = Some (?a5, rest)"
    using parse_members_comma [of "Suc (Suc n)" ?a2 "''staffId''" "staffId w" "10 # ?m4"] p4
    by (simp only: parse_members_newline)
  have p2: "parse_members (Suc (Suc (Suc (Suc (Suc n))))) ?a1 ?m2 = Some (?a5, rest)"
    using parse_members_comma [of "Suc (Suc (Suc n))" ?a1 "''userId''" "userId w" "10 # ?m3"] p3
    by (simp only: parse_members_newline)
  have p1: "parse_members (Suc (Suc (Suc (Suc (Suc (Suc n)))))) [] ?m1 = Some (?a5, rest)"
    using parse_members_comma [of "Suc (Suc (Suc (Suc n)))" "[]" "''caseId''" "caseId w" "10 # ?m2"] p2
    by (simp only: parse_members_newline)
  have obj: "JObject ?a5 = warning_object w"
    using keys_differ by (simp add: warning_object_def)
  have sk: "skip_ws (10 # ?m1) = skip_ws ?m1" by (simp add: skip_ws_simps)
  obtain vs where vv: "skip_ws ?m1 = 34 # vs"
    unfolding member_text_eq by (simp add: skip_ws_simps not_ws)
  have pm: "parse_members (Suc (Suc (Suc (Suc (Suc (Suc n)))))) [] (34 # vs) = Some (?a5, rest)"
    using parse_members_skip_ws [of "Suc (Suc (Suc (Suc (Suc (Suc n)))))" "[]" ?m1] p1
    unfolding vv by (rule trans)
  have ne: "(34::nat) \<noteq> 125" by simp
  have "parse_value (Suc (Suc (Suc (Suc (Suc (Suc (Suc n)))))))
          (32 # 32 # 123 # 10 # ?m1) = Some (JObject ?a5, rest)"
    unfolding parse_value.simps
    by (simp only: skip_ws_simps(2) skip_ws_simps(4) [OF not_ws(5)] sk vv pm list.case
          option.case prod.case simp_thms if_True if_False ne)
  then show ?thesis unfolding warning_text_eq obj .
qed

lemma parse_elements_newline: "parse_elements n (10 # s) = parse_elements n s"
  using parse_elements_skip_ws [of n "10 # s"] parse_elements_skip_ws [of n s]
  by (simp add: skip_ws_simps)

text \<open>The texts of the warnings of an array, up to the closing bracket, are read back.\<close>

lemma parse_elements_warnings:
  "parse_elements (Suc (Suc (Suc (Suc (Suc (Suc (Suc (Suc (length ws + m)))))))))
     (join_lines (map warning_text (w # ws)) @ 10 # 93 # rest)
     = Some (map warning_object (w # ws), rest)"
proof (induction ws arbitrary: w)
  case Nil
  have v: "parse_value (Suc (Suc (Suc (Suc (Suc (Suc (Suc m)))))))
             (warning_text w @ 10 # 93 # rest) = Some (warning_object w, 10 # 93 # rest)"
    by (rule parse_value_warning)
  have sk: "skip_ws (10 # 93 # rest) = 93 # rest" by (simp add: skip_ws_simps not_ws)
  have ne: "(93::nat) \<noteq> 44" by simp
  show ?case
    unfolding list.size add_0 parse_elements.simps(2) [of "Suc (Suc (Suc (Suc (Suc (Suc (Suc m))))))"]
    by (simp only: list.map join_lines.simps v sk list.case option.case
          prod.case simp_thms if_True if_False ne)
next
  case (Cons w' ws)
  let ?rest = "join_lines (map warning_text (w' # ws)) @ 10 # 93 # rest"
  have j: "join_lines (map warning_text (w # w' # ws)) @ 10 # 93 # rest
             = warning_text w @ 44 # 10 # ?rest"
    by (simp add: units_def)
  have v: "parse_value (Suc (Suc (Suc (Suc (Suc (Suc (Suc (Suc (length ws + m)))))))))
             (warning_text w @ 44 # 10 # ?rest) = Some (warning_object w, 44 # 10 # ?rest)"
    by (rule parse_value_warning)
  have sk: "skip_ws (44 # 10 # ?rest) = 44 # 10 # ?rest" by (simp add: skip_ws_simps not_ws)
  have ih: "parse_elements (Suc (Suc (Suc (Suc (Suc (Suc (Suc (Suc (length ws + m)))))))))
              (10 # ?rest) = Some (map warning_object (w' # ws), rest)"
    unfolding parse_elements_newline by (rule Cons.IH)
  have len: "length (w' # ws) + m = Suc (length ws + m)" by simp
  have r: "map warning_object (w # w' # ws) = warning_object w # map warning_object (w' # ws)"
    by simp
  show ?case
    unfolding j len r parse_elements.simps(2) [of "Suc (Suc (Suc (Suc (Suc (Suc (Suc (Suc (length ws + m))))))))"]
    by (simp only: v sk ih list.case option.case prod.case simp_thms if_True)
qed

lemma length_warning_text: "8 \<le> length (warning_text w)"
  by (simp add: warning_text_def units_def)

lemma length_join_lines: "length ws + 8 \<le> length (join_lines (map warning_text (w # ws)))"
proof (induction ws arbitrary: w)
  case Nil
  show ?case using length_warning_text [of w] by simp
next
  case (Cons w' ws)
  have "length (join_lines (map warning_text (w # w' # ws)))
          = length (warning_text w) + 2 + length (join_lines (map warning_text (w' # ws)))"
    by (simp add: units_def)
  then show ?case using Cons.IH [of w'] by simp
qed

lemma join_lines_start:
  "\<exists>t. join_lines (map warning_text (w # ws)) = 32 # 32 # 123 # t"
  by (cases ws) (simp_all add: warning_text_def units_def)

text \<open>
  What \<open>JSON.stringify\<close> writes for an array of warning records, \<open>JSON.parse\<close> reads
  back as the array of their objects.
\<close>

lemma parse_text_stringify_text:
  "parse_text (stringify_text ws) = Inr (JArray (map warning_object ws))"
proof (cases ws)
  case Nil
  have st: "stringify_text [] = [91, 93]"
    by (simp add: stringify_text_def units_def)
  have pv: "parse_value (Suc n) [91, 93] = Some (JArray [], [])" for n
    by (simp add: parse_value.simps(2) skip_ws_simps not_ws)
  show ?thesis
    unfolding Nil st parse_text_def pv by (simp add: skip_ws_simps)
next
  case (Cons w ws')
  let ?j = "join_lines (map warning_text (w # ws'))"
  have stx: "stringify_text ws = 91 # 10 # ?j @ 10 # 93 # []"
    using Cons by (simp add: stringify_text_def units_def)
  from join_lines_start [of w ws'] obtain t where t: "?j = 32 # 32 # 123 # t" by blast
  have "length ws' + 8 \<le> length (stringify_text ws)"
    unfolding stx using length_join_lines [of ws' w] by simp
  then obtain m where "length (stringify_text ws) = (length ws' + 8) + m"
    by (auto simp: le_iff_add)
  then have m: "length (stringify_text ws)
      = Suc (Suc (Suc (Suc (Suc (Suc (Suc (Suc (length ws' + m))))))))"
    by linarith
  have el: "parse_elements (Suc (Suc (Suc (Suc (Suc (Suc (Suc (Suc (length ws' + m)))))))))
              (?j @ 10 # 93 # []) = Some (map warning_object (w # ws'), [])"
    by (rule parse_elements_warnings)
  have sk: "skip_ws (10 # ?j @ 10 # 93 # []) = 123 # t @ 10 # 93 # []"
    unfolding t by (simp add: skip_ws_simps not_ws)
  have el': "parse_elements (Suc (Suc (Suc (Suc (Suc (Suc (Suc (Suc (length ws' + m)))))))))
              (123 # t @ 10 # 93 # []) = Some (map warning_object (w # ws'), [])"
    using parse_elements_skip_ws [of _ "10 # ?j @ 10 # 93 # []"] parse_elements_newline el
    unfolding sk by simp
  have sk0: "skip_ws (91 # 10 # ?j @ 10 # 93 # []) = 91 # 10 # ?j @ 10 # 93 # []"
    by (simp add: skip_ws_simps not_ws)
  have ne: "(91::nat) \<noteq> 123" "(123::nat) \<noteq> 93" by simp_all
  have "parse_value (Suc (length (stringify_text ws))) (stringify_text ws)
          = Some (JArray (map warning_object (w # ws')), [])"
    unfolding m parse_value.simps(2) [of "Suc (Suc (Suc (Suc (Suc (Suc (Suc (Suc (length ws' + m))))))))"]
    unfolding stx
    by (simp only: sk0 sk el' list.case option.case prod.case simp_thms if_True if_False ne)
  then show ?thesis
    using Cons by (simp add: parse_text_def skip_ws_simps)
qed

lemma units_eq_iff: "units a = units b \<longleftrightarrow> a = b"
proof (induction a arbitrary: b)
  case Nil
  show ?case by (cases b) (simp_all add: units_def)
next
  case (Cons c a)
  show ?case using Cons.IH by (cases b) (simp_all add: units_def)
qed

lemma inj_units: "inj units"
  by (simp add: inj_on_def units_eq_iff)

text \<open>
Claim C7. Run \<open>/warn\<close> for any number of invocations that pass the checks (the caller
  a \<open>GuildMember\<close> with the role "Staff", the target a member that is not a bot), from
  files whose warnings read as the array \<open>ws\<close> (empty when the file is missing, blank or
  malformed). Reading the file again gives \<open>ws\<close> followed by one record per invocation,
  in the order of the invocations; the record of an invocation has its case id as
  \<open>caseId\<close>, the id of its target as \<open>userId\<close>, the id of its caller as \<open>staffId\<close>, its
  reason as \<open>reason\<close> and its time as \<open>timestamp\<close>. This holds whether or not the
  direct message and the reply go through afterwards; one invocation reads and
  writes the file before its first \<open>await\<close>, so no other handler comes between the
  two. The text that
  \<open>JSON.stringify\<close> writes for these records is read back by \<open>JSON.parse\<close> as the array
  of their objects, one per record in the same order, each with the five properties
  holding the strings of the record; different strings have different texts.
\<close>

theorem warnings_round_trip:
  assumes "list_all2 (\<lambda>i (s, t). wi_staff i = CachedMember s \<and> ''Staff'' \<in> set (gm_roles s)
                            \<and> wi_target i = Some t \<and> \<not> gm_bot t) invocations members"
    and "snd (read_warnings fsys) = JArr ws"
    and "recs = map2 (\<lambda>i (s, t). \<lparr>caseId = wi_caseId i, userId = gm_id t, staffId = gm_id s,
                                  reason = wi_reason i, timestamp = wi_now i\<rparr>)
                  invocations members"
  shows "snd (read_warnings (warn_each invocations fsys)) = JArr (ws @ recs)
       \<and> (invocations \<noteq> [] \<longrightarrow>
            warnings_file (warn_each invocations fsys) = Some (JsonArray (ws @ recs)))
       \<and> parse_text (stringify_text (ws @ recs))
           = Inr (JArray (map (\<lambda>r. JObject
                 [(units ''caseId'', JString (units (caseId r))),
                  (units ''userId'', JString (units (userId r))),
                  (units ''staffId'', JString (units (staffId r))),
                  (units ''reason'', JString (units (reason r))),
                  (units ''timestamp'', JString (units (timestamp r)))]) (ws @ recs)))
       \<and> inj units"
proof -
  have a: "snd (read_warnings (warn_each invocations fsys))
             = JArr (ws @ map2 (\<lambda>i (s, t). new_warning i s t) invocations members)
       \<and> (invocations \<noteq> [] \<longrightarrow>
            warnings_file (warn_each invocations fsys)
              = Some (JsonArray (ws @ map2 (\<lambda>i (s, t). new_warning i s t) invocations members)))"
    using assms(1,2)
  proof (induction invocations members arbitrary: fsys ws rule: list_all2_induct)
    case Nil
    then show ?case by simp
  next
    case (Cons i rest m ms)
    obtain s t where m: "m = (s, t)" by (cases m)
    let ?fsys' = "fst (snd (warn_execute i fsys))"
    from Cons.hyps(1) Cons.prems m
    have step: "warnings_file ?fsys' = Some (JsonArray (ws @ [new_warning i s t]))"
      using warn_execute_accepted [of i s t fsys ws] by simp
    then have old': "snd (read_warnings ?fsys') = JArr (ws @ [new_warning i s t])"
      by (simp add: read_warnings_def)
    from Cons.IH [OF old'] step m show ?case by (cases rest) auto
  qed
  have r: "map2 (\<lambda>i (s, t). new_warning i s t) invocations members = recs"
    unfolding assms(3) by (simp add: new_warning_def)
  have o: "(\<lambda>r. JObject
                 [(units ''caseId'', JString (units (caseId r))),
                  (units ''userId'', JString (units (userId r))),
                  (units ''staffId'', JString (units (staffId r))),
                  (units ''reason'', JString (units (reason r))),
                  (units ''timestamp'', JString (units (timestamp r)))]) = warning_object"
    by (simp add: warning_object_def fun_eq_iff)
  show ?thesis
    using a unfolding r o by (simp add: parse_text_stringify_text inj_units)
qed

theorem warnings_round_trip_witness:
  "snd (read_warnings (warn_each
       [ex_warn, ex_warn\<lparr>wi_caseId := ''Z0000001'', wi_reason := (''no'' @ [CHR 0x22, CHR 0x5C, CHR 0x0A]), wi_dmOk := False\<rparr>]
       None))
     = JArr [\<lparr>caseId = ''K3J9X0AB'', userId = ''666666666666666666'',
              staffId = ''555555555555555555'', reason = ''spam'',
              timestamp = ''2024-01-01T00:00:00.000Z''\<rparr>,
             \<lparr>caseId = ''Z0000001'', userId = ''666666666666666666'',
              staffId = ''555555555555555555'', reason = (''no'' @ [CHR 0x22, CHR 0x5C, CHR 0x0A]),
              timestamp = ''2024-01-01T00:00:00.000Z''\<rparr>]
   \<and> parse_text (stringify_text
       [\<lparr>caseId = ''Z0000001'', userId = ''666666666666666666'',
         staffId = ''555555555555555555'', reason = (''no'' @ [CHR 0x22, CHR 0x5C, CHR 0x0A]),
         timestamp = ''2024-01-01T00:00:00.000Z''\<rparr>])
     = Inr (JArray [JObject
         [(units ''caseId'', JString (units ''Z0000001'')),
          (units ''userId'', JString (units ''666666666666666666'')),
          (units ''staffId'', JString (units ''555555555555555555'')),
          (units ''reason'', JString (units (''no'' @ [CHR 0x22, CHR 0x5C, CHR 0x0A]))),
          (units ''timestamp'', JString (units ''2024-01-01T00:00:00.000Z''))]])"
proof -
  let ?i2 = "ex_warn\<lparr>wi_caseId := ''Z0000001'', wi_reason := (''no'' @ [CHR 0x22, CHR 0x5C, CHR 0x0A]), wi_dmOk := False\<rparr>"
  have a: "list_all2 (\<lambda>i (s, t). wi_staff i = CachedMember s \<and> ''Staff'' \<in> set (gm_roles s)
                            \<and> wi_target i = Some t \<and> \<not> gm_bot t)
             [ex_warn, ?i2] [(ex_staff, ex_member), (ex_staff, ex_member)]"
    by (simp add: ex_warn_def ex_staff_def ex_member_def)
  have b: "snd (read_warnings None) = JArr []"
    by (simp add: read_warnings_def warnings_file_def)
  note t1 = warnings_round_trip [OF a b refl]
  have c: "list_all2 (\<lambda>i (s, t). wi_staff i = CachedMember s \<and> ''Staff'' \<in> set (gm_roles s)
                            \<and> wi_target i = Some t \<and> \<not> gm_bot t)
             [?i2] [(ex_staff, ex_member)]"
    by (simp add: ex_warn_def ex_staff_def ex_member_def)
  note t2 = warnings_round_trip [OF c b refl]
  have c1: "snd (read_warnings (warn_each [ex_warn, ?i2] None))
     = JArr [\<lparr>caseId = ''K3J9X0AB'', userId = ''666666666666666666'',
              staffId = ''555555555555555555'', reason = ''spam'',
              timestamp = ''2024-01-01T00:00:00.000Z''\<rparr>,
             \<lparr>caseId = ''Z0000001'', userId = ''666666666666666666'',
              staffId = ''555555555555555555'', reason = (''no'' @ [CHR 0x22, CHR 0x5C, CHR 0x0A]),
              timestamp = ''2024-01-01T00:00:00.000Z''\<rparr>]"
    using t1 by (simp add: ex_warn_def ex_staff_def ex_member_def)
  have c2: "parse_text (stringify_text
       [\<lparr>caseId = ''Z0000001'', userId = ''666666666666666666'',
         staffId = ''555555555555555555'', reason = (''no'' @ [CHR 0x22, CHR 0x5C, CHR 0x0A]),
         timestamp = ''2024-01-01T00:00:00.000Z''\<rparr>])
     = Inr (JArray [JObject
         [(units ''caseId'', JString (units ''Z0000001'')),
          (units ''userId'', JString (units ''666666666666666666'')),
          (units ''staffId'', JString (units ''555555555555555555'')),
          (units ''reason'', JString (units (''no'' @ [CHR 0x22, CHR 0x5C, CHR 0x0A]))),
          (units ''timestamp'', JString (units ''2024-01-01T00:00:00.000Z''))]])"
    using t2 by (simp add: ex_warn_def ex_staff_def ex_member_def)
  from c1 c2 show ?thesis by blast
qed

section \<open>Missing and malformed files\<close>












text \<open>
  What \<open>/starboard\<close> does on a config file that is not JSON: \<open>JSON.parse\<close> throws out of
  \<open>saveConfig\<close>, nothing is written, and the dispatcher answers with the failure message.
\<close>

lemma saveConfig_malformed_throws:
  "saveConfig g data (Some \<lparr>starboard_json = Some Garbage, warnings_json = w\<rparr>)
     = (Some \<lparr>starboard_json = Some Garbage, warnings_json = w\<rparr>, Threw SyntaxError)"
  by (simp add: saveConfig_def starboard_file_def)

lemma starboard_on_malformed_file:
  "onInteractionCreate (Starboard ex_interaction)
     (start (Some \<lparr>starboard_json = Some Garbage, warnings_json = None\<rparr>))
   = ([ConsoleError ''Error executing'', Reply CommandFailed],
      start (Some \<lparr>starboard_json = Some Garbage, warnings_json = None\<rparr>), Returned)"
  by code_simp



end
